theory Spec2Isabelle
  imports Main "HOL-Library.Multiset" "HOL-Library.List_Lexorder" "HOL-Library.Char_ord"
begin

section \<open>The session store (backend/src/database.ts)\<close>

text \<open>
  The store is one SQLite table,
  \<^verbatim>\<open>messages(id INTEGER PRIMARY KEY AUTOINCREMENT, session_id TEXT, role TEXT,
  content TEXT, timestamp DATETIME DEFAULT CURRENT_TIMESTAMP)\<close>.
  Text is a list of bytes (the UTF-8 encoding SQLite stores); the imported lexicographic
  order on \<open>string\<close> is the byte-wise comparison of SQLite's default BINARY collation.
\<close>

datatype Role = User | Assistant

text \<open>
  The TypeScript interface \<open>Message\<close>: \<open>id\<close> and \<open>timestamp\<close> are optional fields
  (\<open>None\<close> is \<open>undefined\<close>). The field \<open>id\<close> is written \<open>msg_id\<close>, the name \<open>id\<close>
  being HOL's identity function.
\<close>

record Message =
  msg_id :: "nat option"
  session_id :: string
  role :: Role
  content :: string
  timestamp :: "string option"

text \<open>One row of the table \<open>messages\<close>; every column holds a value.\<close>

record row =
  row_id :: nat
  row_session_id :: string
  row_role :: Role
  row_content :: string
  row_timestamp :: string

text \<open>
  The database file: the rows of \<open>messages\<close> in insertion order, and the
  \<open>sqlite_sequence\<close> entry that AUTOINCREMENT keeps (the largest rowid ever handed out,
  which survives DELETE). The module variable \<open>db\<close> is a \<open>Database option\<close>: \<open>None\<close> is
  \<open>null\<close>, its value before \<open>initDatabase\<close> has run.
\<close>

record Database =
  messages :: "row list"
  sqlite_sequence :: nat

text \<open>
  What is thrown: the store's \<open>Database not initialized\<close>, a failure of the completion
  service, and the TypeError of destructuring \<open>undefined\<close>.
\<close>

datatype error = DatabaseNotInitialized | UpstreamError | TypeError

text \<open>
  \<^verbatim>\<open>INSERT INTO messages (session_id, role, content) VALUES (?, ?, ?)\<close>: the rowid is one
  more than the largest rowid ever used, the timestamp column takes its default, the
  reading \<open>now\<close> of CURRENT_TIMESTAMP (a text \<open>YYYY-MM-DD HH:MM:SS\<close>). The result is
  \<open>lastID\<close> and the new table.
\<close>

definition next_rowid :: "Database \<Rightarrow> nat" where
  "next_rowid d = Suc (fold max (map row_id (messages d)) (sqlite_sequence d))"

definition sql_insert :: "string \<Rightarrow> Database \<Rightarrow> string \<Rightarrow> Role \<Rightarrow> string \<Rightarrow> nat \<times> Database" where
  "sql_insert now d sid r c =
     (let lastID = next_rowid d in
      (lastID,
       d\<lparr>messages := messages d @
            [\<lparr>row_id = lastID, row_session_id = sid, row_role = r, row_content = c,
              row_timestamp = now\<rparr>],
         sqlite_sequence := lastID\<rparr>))"

text \<open>\<open>saveMessage\<close>: the insert, then the argument spread with \<open>id: result.lastID\<close>.\<close>

definition saveMessage ::
  "string \<Rightarrow> Database option \<Rightarrow> Message \<Rightarrow> error + (Database option \<times> Message)" where
  "saveMessage now db message =
     (case db of
        None \<Rightarrow> Inl DatabaseNotInitialized
      | Some d \<Rightarrow>
          (let (lastID, d') = sql_insert now d (session_id message) (role message) (content message)
           in Inr (Some d', message\<lparr>msg_id := Some lastID\<rparr>)))"

text \<open>
  \<^verbatim>\<open>SELECT * FROM messages WHERE session_id = ? ORDER BY timestamp ASC\<close>.
  The statement names one sort key. What the engine must return is the selected rows, each
  once, in non-decreasing timestamp order; CURRENT_TIMESTAMP counts in seconds, so rows of
  equal timestamp are common. The engine's sorter is a parameter \<open>sorter\<close> of the model,
  and \<open>order_by_timestamp\<close> is what the statement asks of it.
\<close>

type_synonym sorter = "row list \<Rightarrow> row list"

definition timestamp_ascending :: "row list \<Rightarrow> bool" where
  "timestamp_ascending rs = sorted_wrt (\<lambda>a b. row_timestamp a \<le> row_timestamp b) rs"

definition order_by_timestamp_at :: "sorter \<Rightarrow> row list \<Rightarrow> bool" where
  "order_by_timestamp_at srt rs = (mset (srt rs) = mset rs \<and> timestamp_ascending (srt rs))"

definition order_by_timestamp :: "sorter \<Rightarrow> bool" where
  "order_by_timestamp srt = (\<forall>rs. order_by_timestamp_at srt rs)"

text \<open>
  The sorter of the engine the module opens: SQLite scans the selected rows in rowid order
  and its sorter is a stable merge sort on the ORDER BY key, so rows of equal timestamp
  stay in the order of the scan.
\<close>

definition stable_sorter :: sorter where
  "stable_sorter rs = sort_key row_timestamp rs"

definition row_to_Message :: "row \<Rightarrow> Message" where
  "row_to_Message r =
     \<lparr>msg_id = Some (row_id r), session_id = row_session_id r, role = row_role r,
      content = row_content r, timestamp = Some (row_timestamp r)\<rparr>"

definition session_rows :: "Database \<Rightarrow> string \<Rightarrow> row list" where
  "session_rows d sessionId = filter (\<lambda>r. row_session_id r = sessionId) (messages d)"

definition getConversationHistory ::
  "sorter \<Rightarrow> Database option \<Rightarrow> string \<Rightarrow> error + Message list" where
  "getConversationHistory srt db sessionId =
     (case db of
        None \<Rightarrow> Inl DatabaseNotInitialized
      | Some d \<Rightarrow> Inr (map row_to_Message (srt (session_rows d sessionId))))"

text \<open>
  \<^verbatim>\<open>SELECT DISTINCT session_id FROM messages GROUP BY session_id ORDER BY session_id DESC\<close>:
  the keys are pairwise different, so the result is fixed by the statement: the distinct
  session ids in descending order.
\<close>

definition getAllSessions :: "Database option \<Rightarrow> error + string list" where
  "getAllSessions db =
     (case db of
        None \<Rightarrow> Inl DatabaseNotInitialized
      | Some d \<Rightarrow> Inr (rev (sort (remdups (map row_session_id (messages d))))))"

text \<open>\<^verbatim>\<open>DELETE FROM messages WHERE session_id = ?\<close>\<close>

definition deleteSession :: "Database option \<Rightarrow> string \<Rightarrow> error + Database option" where
  "deleteSession db sessionId =
     (case db of
        None \<Rightarrow> Inl DatabaseNotInitialized
      | Some d \<Rightarrow>
          Inr (Some (d\<lparr>messages := filter (\<lambda>r. row_session_id r \<noteq> sessionId) (messages d)\<rparr>)))"

text \<open>\<open>createSession\<close>: the insert of \<open>(sessionId, "assistant", "")\<close>.\<close>

definition createSession :: "string \<Rightarrow> Database option \<Rightarrow> string \<Rightarrow> error + Database option" where
  "createSession now db sessionId =
     (case db of
        None \<Rightarrow> Inl DatabaseNotInitialized
      | Some d \<Rightarrow> Inr (Some (snd (sql_insert now d sessionId Assistant ''''))))"

section \<open>The chat endpoint (the server's handler of POST /api/chat)\<close>

text \<open>
  A parsed request body at its documented type: \<open>message\<close> and \<open>sessionId\<close> are strings
  or absent, \<open>streaming\<close> a boolean or absent. \<open>req.body\<close> itself is a
  \<open>request_body option\<close>: with the Express 5 the project depends on, \<open>express.json()\<close>
  leaves \<open>req.body\<close> undefined (\<open>None\<close>) when the request carries no JSON body. The
  handler is written as a function of the store, \<open>req.body\<close> and what its surroundings
  answer: the two readings of the clock taken by the two inserts, and the completion
  service.
\<close>

record request_body =
  req_message :: "string option"
  req_sessionId :: "string option"
  req_streaming :: "bool option"

datatype BaseMessage = HumanMessage string | AIMessage string

text \<open>
  The completion service \<open>chatModel\<close>. \<open>invoke\<close> resolves with the answer's text or
  throws. \<open>stream\<close> throws, or gives an iterator that yields finitely many chunks and then
  either finishes (\<open>None\<close>) or throws (\<open>Some e\<close>).
\<close>

record ChatModel =
  invoke :: "BaseMessage list \<Rightarrow> error + string"
  stream :: "BaseMessage list \<Rightarrow> error + string list \<times> error option"

datatype response_body = ErrorBody string | MessageBody string

text \<open>
  What the handler does, in the order it does it. \<open>SaveMessage m\<close>: an awaited
  \<open>saveMessage\<close> has resolved with \<open>m\<close>. \<open>ModelInvoke\<close> and \<open>ModelStream\<close>: the
  completion call is issued. \<open>InvokeResolved\<close>, \<open>StreamChunk\<close>, \<open>StreamEnded\<close>,
  \<open>ModelThrew\<close>: its answers. The rest are the calls on \<open>res\<close> and \<open>console\<close>.
\<close>

datatype event =
    SaveMessage Message
  | GetConversationHistory string
  | ModelInvoke "BaseMessage list"
  | InvokeResolved string
  | ModelStream "BaseMessage list"
  | StreamChunk string
  | StreamEnded
  | ModelThrew error
  | ConsoleError error
  | ResStatus nat
  | ResJson response_body
  | ResSetHeader string string
  | ResWrite string
  | ResEnd

text \<open>
  \<open>JSON.stringify\<close> of a string (ECMAScript's QuoteJSONString) on UTF-8 bytes: the quote,
  the backslash and the control characters below 0x20 are escaped, every other byte is
  copied. \<open>CHR 0x22\<close> is the double quote, \<open>CHR 0x5C\<close> the backslash, \<open>CHR 0x0A\<close> the
  line feed.
\<close>

definition hex_digit :: "nat \<Rightarrow> char" where
  "hex_digit n = ''0123456789abcdef'' ! n"

definition UnicodeEscape :: "char \<Rightarrow> string" where
  "UnicodeEscape c =
     [CHR 0x5C, CHR ''u'', CHR ''0'', CHR ''0'',
      hex_digit (of_char c div 16), hex_digit (of_char c mod 16)]"

definition QuoteJSONChar :: "char \<Rightarrow> string" where
  "QuoteJSONChar c =
     (if c = CHR 0x08 then [CHR 0x5C, CHR ''b'']
      else if c = CHR 0x09 then [CHR 0x5C, CHR ''t'']
      else if c = CHR 0x0A then [CHR 0x5C, CHR ''n'']
      else if c = CHR 0x0C then [CHR 0x5C, CHR ''f'']
      else if c = CHR 0x0D then [CHR 0x5C, CHR ''r'']
      else if c = CHR 0x22 then [CHR 0x5C, CHR 0x22]
      else if c = CHR 0x5C then [CHR 0x5C, CHR 0x5C]
      else if (of_char c :: nat) < 0x20 then UnicodeEscape c
      else [c])"

definition QuoteJSONString :: "string \<Rightarrow> string" where
  "QuoteJSONString s = CHR 0x22 # concat (map QuoteJSONChar s) @ [CHR 0x22]"

text \<open>\<open>JSON.stringify({ content })\<close> and \<open>JSON.stringify({ done: true })\<close>.\<close>

definition JSON_stringify_content :: "string \<Rightarrow> string" where
  "JSON_stringify_content c =
     [CHR ''{'', CHR 0x22] @ ''content'' @ [CHR 0x22, CHR '':''] @ QuoteJSONString c @ ''}''"

definition JSON_stringify_done :: string where
  "JSON_stringify_done = [CHR ''{'', CHR 0x22] @ ''done'' @ [CHR 0x22, CHR '':''] @ ''true}''"

text \<open>The template literal \<^verbatim>\<open>`data: ${...}\n\n`\<close>.\<close>

definition sse_data :: "string \<Rightarrow> string" where
  "sse_data json = ''data: '' @ json @ [CHR 0x0A, CHR 0x0A]"

text \<open>The early return of the validation, and the \<open>catch\<close> block.\<close>

definition bad_request :: "event list" where
  "bad_request = [ResStatus 400, ResJson (ErrorBody ''Message is required'')]"

definition internal_error :: "error \<Rightarrow> event list" where
  "internal_error e = [ConsoleError e, ResStatus 500, ResJson (ErrorBody ''Internal server error'')]"

text \<open>
  \<open>history.slice(0, -1).map(...)\<close> followed by \<open>push(new HumanMessage(message))\<close>;
  \<open>slice(0, -1)\<close> of an empty array is empty, as \<open>butlast []\<close> is.
\<close>

definition toLangchain :: "Message \<Rightarrow> BaseMessage" where
  "toLangchain msg = (if role msg = User then HumanMessage (content msg) else AIMessage (content msg))"

definition langchainMessages :: "Message list \<Rightarrow> string \<Rightarrow> BaseMessage list" where
  "langchainMessages history message = map toLangchain (butlast history) @ [HumanMessage message]"

text \<open>
  The \<open>for await\<close> loop over the chunks that arrive: each is appended to \<open>fullResponse\<close>
  and written to the response as one frame.
\<close>

fun forward_chunks :: "string list \<Rightarrow> string \<Rightarrow> string \<times> event list" where
  "forward_chunks [] fullResponse = (fullResponse, [])"
| "forward_chunks (chunk # rest) fullResponse =
     (let (final, evs) = forward_chunks rest (fullResponse @ chunk)
      in (final, StreamChunk chunk # ResWrite (sse_data (JSON_stringify_content chunk)) # evs))"

definition sse_headers :: "event list" where
  "sse_headers =
     [ResSetHeader ''Content-Type'' ''text/event-stream'',
      ResSetHeader ''Cache-Control'' ''no-cache'',
      ResSetHeader ''Connection'' ''keep-alive'']"

text \<open>The object literals handed to \<open>saveMessage\<close>: no \<open>id\<close>, no \<open>timestamp\<close>.\<close>

definition user_turn :: "string \<Rightarrow> string \<Rightarrow> Message" where
  "user_turn sessionId text =
     \<lparr>msg_id = None, session_id = sessionId, role = User, content = text, timestamp = None\<rparr>"

definition assistant_turn :: "string \<Rightarrow> string \<Rightarrow> Message" where
  "assistant_turn sessionId text =
     \<lparr>msg_id = None, session_id = sessionId, role = Assistant, content = text, timestamp = None\<rparr>"

text \<open>The branch \<open>if (streaming)\<close>.\<close>

definition streaming_branch ::
  "ChatModel \<Rightarrow> string \<Rightarrow> Database option \<Rightarrow> string \<Rightarrow> BaseMessage list
     \<Rightarrow> Database option \<times> event list" where
  "streaming_branch chatModel now db sessionId msgs =
     (case stream chatModel msgs of
        Inl e \<Rightarrow> (db, sse_headers @ [ModelStream msgs, ModelThrew e] @ internal_error e)
      | Inr (chunks, failure) \<Rightarrow>
          (let (fullResponse, evs) = forward_chunks chunks [];
               tr = sse_headers @ [ModelStream msgs] @ evs
           in case failure of
                Some e \<Rightarrow> (db, tr @ [ModelThrew e] @ internal_error e)
              | None \<Rightarrow>
                  (case saveMessage now db (assistant_turn sessionId fullResponse) of
                     Inl e \<Rightarrow> (db, tr @ [StreamEnded] @ internal_error e)
                   | Inr (db', saved) \<Rightarrow>
                       (db', tr @ [StreamEnded, SaveMessage saved,
                                   ResWrite (sse_data JSON_stringify_done), ResEnd]))))"

text \<open>The branch \<open>else\<close>: the buffered reply.\<close>

definition buffered_branch ::
  "ChatModel \<Rightarrow> string \<Rightarrow> Database option \<Rightarrow> string \<Rightarrow> BaseMessage list
     \<Rightarrow> Database option \<times> event list" where
  "buffered_branch chatModel now db sessionId msgs =
     (case invoke chatModel msgs of
        Inl e \<Rightarrow> (db, [ModelInvoke msgs, ModelThrew e] @ internal_error e)
      | Inr assistantMessage \<Rightarrow>
          (case saveMessage now db (assistant_turn sessionId assistantMessage) of
             Inl e \<Rightarrow> (db, [ModelInvoke msgs, InvokeResolved assistantMessage] @ internal_error e)
           | Inr (db', saved) \<Rightarrow>
               (db', [ModelInvoke msgs, InvokeResolved assistantMessage, SaveMessage saved,
                      ResJson (MessageBody assistantMessage)])))"

text \<open>
  The handler. Its first statement, inside the \<open>try\<close>, destructures \<open>req.body\<close>: of
  \<open>undefined\<close> that throws a TypeError, which the \<open>catch\<close> answers. \<open>sessionId = "default"\<close>
  applies when the field is absent; \<open>!message\<close> holds of an absent and of an empty string;
  \<open>streaming\<close> is \<open>req.body.streaming === true\<close>. The result is the store afterwards and
  what was done.
\<close>

definition sessionId_of :: "request_body \<Rightarrow> string" where
  "sessionId_of body = (case req_sessionId body of None \<Rightarrow> ''default'' | Some s \<Rightarrow> s)"

definition post_api_chat ::
  "sorter \<Rightarrow> ChatModel \<Rightarrow> string \<Rightarrow> string \<Rightarrow> Database option \<Rightarrow> request_body option
     \<Rightarrow> Database option \<times> event list" where
  "post_api_chat srt chatModel now1 now2 db req_body =
     (case req_body of
        None \<Rightarrow> (db, internal_error TypeError)
      | Some body \<Rightarrow>
          (let sessionId = sessionId_of body in
           case req_message body of
             None \<Rightarrow> (db, bad_request)
           | Some message \<Rightarrow>
               if message = [] then (db, bad_request)
               else
                 (case saveMessage now1 db (user_turn sessionId message) of
                    Inl e \<Rightarrow> (db, internal_error e)
                  | Inr (db1, saved) \<Rightarrow>
                      (case getConversationHistory srt db1 sessionId of
                         Inl e \<Rightarrow> (db1, SaveMessage saved # internal_error e)
                       | Inr history \<Rightarrow>
                           (let msgs = langchainMessages history message;
                                (db2, evs) =
                                  (if req_streaming body = Some True
                                   then streaming_branch chatModel now2 db1 sessionId msgs
                                   else buffered_branch chatModel now2 db1 sessionId msgs)
                            in (db2, SaveMessage saved # GetConversationHistory sessionId # evs))))))"

section \<open>Notions the properties are stated with\<close>

text \<open>Rowids grow along the table; ordering by timestamp first and rowid second.\<close>

definition ids_ascending :: "Database \<Rightarrow> bool" where
  "ids_ascending d = sorted_wrt (\<lambda>a b. row_id a < row_id b) (messages d)"


text \<open>
  The stores the module can leave behind: the empty table, and what an insert or a delete
  makes of such a store.
\<close>

inductive written_by_module :: "Database \<Rightarrow> bool" where
  fresh: "written_by_module \<lparr>messages = [], sqlite_sequence = 0\<rparr>"
| inserted: "written_by_module d \<Longrightarrow> written_by_module (snd (sql_insert now d sid r c))"
| deleted: "written_by_module d \<Longrightarrow>
     written_by_module (d\<lparr>messages := filter (\<lambda>r. row_session_id r \<noteq> sid) (messages d)\<rparr>)"

text \<open>
  The store once the user turn is in, the history then read from it, and the transcript
  assembled from that history.
\<close>

definition db_after_user :: "string \<Rightarrow> Database \<Rightarrow> string \<Rightarrow> string \<Rightarrow> Database" where
  "db_after_user now d sessionId message = snd (sql_insert now d sessionId User message)"

definition history_after_user ::
  "sorter \<Rightarrow> string \<Rightarrow> Database \<Rightarrow> string \<Rightarrow> string \<Rightarrow> Message list" where
  "history_after_user srt now d sessionId message =
     map row_to_Message (srt (session_rows (db_after_user now d sessionId message) sessionId))"

definition transcript ::
  "sorter \<Rightarrow> string \<Rightarrow> Database \<Rightarrow> string \<Rightarrow> string \<Rightarrow> BaseMessage list" where
  "transcript srt now d sessionId message =
     langchainMessages (history_after_user srt now d sessionId message) message"

text \<open>
  The strings written to the response, the chunks read from the stream in a run, and the
  events of the chunks of a stream.
\<close>

fun written :: "event list \<Rightarrow> string list" where
  "written [] = []"
| "written (ResWrite s # evs) = s # written evs"
| "written (e # evs) = written evs"

fun chunks_read :: "event list \<Rightarrow> string list" where
  "chunks_read [] = []"
| "chunks_read (StreamChunk c # evs) = c # chunks_read evs"
| "chunks_read (e # evs) = chunks_read evs"

definition chunk_events :: "string list \<Rightarrow> event list" where
  "chunk_events chunks =
     concat (map (\<lambda>c. [StreamChunk c, ResWrite (sse_data (JSON_stringify_content c))]) chunks)"

text \<open>
  Reading a frame back, as the client does with \<open>JSON.parse(line.slice(6)).content\<close>:
  \<open>content_of_frame\<close> is the \<open>content\<close> field of a frame
  \<^verbatim>\<open>data: {"content":"..."}\<close> followed by two line feeds, and \<open>None\<close> for any other
  string; \<open>JSON_unquote\<close> undoes the escapes of a JSON string.
\<close>

definition unhex :: "char \<Rightarrow> nat option" where
  "unhex c = map_of (zip ''0123456789abcdef'' [0..<16]) c"

fun JSON_unquote :: "string \<Rightarrow> string option" where
  "JSON_unquote [] = Some []"
| "JSON_unquote (c # cs) =
     (if c = CHR 0x22 then None
      else if c \<noteq> CHR 0x5C then map_option ((#) c) (JSON_unquote cs)
      else (case cs of
              [] \<Rightarrow> None
            | e # r \<Rightarrow>
                if e = CHR ''b'' then map_option ((#) (CHR 0x08)) (JSON_unquote r)
                else if e = CHR ''t'' then map_option ((#) (CHR 0x09)) (JSON_unquote r)
                else if e = CHR ''n'' then map_option ((#) (CHR 0x0A)) (JSON_unquote r)
                else if e = CHR ''f'' then map_option ((#) (CHR 0x0C)) (JSON_unquote r)
                else if e = CHR ''r'' then map_option ((#) (CHR 0x0D)) (JSON_unquote r)
                else if e = CHR 0x22 then map_option ((#) (CHR 0x22)) (JSON_unquote r)
                else if e = CHR 0x5C then map_option ((#) (CHR 0x5C)) (JSON_unquote r)
                else if e = CHR ''u'' then
                  (case r of
                     a # b # h1 # h2 # r' \<Rightarrow>
                       (case (unhex a, unhex b, unhex h1, unhex h2) of
                          (Some 0, Some 0, Some x, Some y) \<Rightarrow>
                            map_option ((#) (char_of (16 * x + y))) (JSON_unquote r')
                        | _ \<Rightarrow> None)
                   | _ \<Rightarrow> None)
                else None))"

definition content_of_frame :: "string \<Rightarrow> string option" where
  "content_of_frame frame =
     (let pre = ''data: '' @ [CHR ''{'', CHR 0x22] @ ''content'' @ [CHR 0x22, CHR '':'', CHR 0x22];
          suf = [CHR 0x22, CHR ''}'', CHR 0x0A, CHR 0x0A];
          n = length frame - length pre - length suf
      in if length pre + length suf \<le> length frame \<and> take (length pre) frame = pre \<and>
            drop (length pre + n) frame = suf
         then JSON_unquote (take n (drop (length pre) frame))
         else None)"

text \<open>
  Events of the completion call (from its issue to its last answer), the events that end it
  with success, and the saves of a turn of a given role. \<open>all_before P Q tr\<close>: in \<open>tr\<close>
  no \<open>Q\<close>-event is followed by a \<open>P\<close>-event, so every \<open>P\<close>-event comes before every
  \<open>Q\<close>-event.
\<close>

definition is_completion :: "event \<Rightarrow> bool" where
  "is_completion e =
     (case e of
        ModelInvoke _ \<Rightarrow> True | InvokeResolved _ \<Rightarrow> True | ModelStream _ \<Rightarrow> True
      | StreamChunk _ \<Rightarrow> True | StreamEnded \<Rightarrow> True | ModelThrew _ \<Rightarrow> True
      | _ \<Rightarrow> False)"

definition is_completed :: "event \<Rightarrow> bool" where
  "is_completed e = (case e of InvokeResolved _ \<Rightarrow> True | StreamEnded \<Rightarrow> True | _ \<Rightarrow> False)"

definition saves :: "Role \<Rightarrow> event \<Rightarrow> bool" where
  "saves r e = (case e of SaveMessage m \<Rightarrow> role m = r | _ \<Rightarrow> False)"

definition all_before :: "(event \<Rightarrow> bool) \<Rightarrow> (event \<Rightarrow> bool) \<Rightarrow> event list \<Rightarrow> bool" where
  "all_before P Q tr = sorted_wrt (\<lambda>a b. \<not> (Q a \<and> P b)) tr"

text \<open>
  What the completion service answers to a transcript: whether the call fails, the chunks
  its stream delivers (up to the failure, when it fails), and the reply: the answer of
  \<open>invoke\<close>, or the chunks of the stream put together.
\<close>

definition delivered :: "ChatModel \<Rightarrow> bool \<Rightarrow> BaseMessage list \<Rightarrow> string list" where
  "delivered chatModel streaming msgs =
     (if streaming
      then (case stream chatModel msgs of Inl _ \<Rightarrow> [] | Inr (chunks, _) \<Rightarrow> chunks)
      else [])"

definition reply :: "ChatModel \<Rightarrow> bool \<Rightarrow> BaseMessage list \<Rightarrow> string" where
  "reply chatModel streaming msgs =
     (if streaming then concat (delivered chatModel True msgs)
      else (case invoke chatModel msgs of Inl _ \<Rightarrow> [] | Inr answer \<Rightarrow> answer))"

definition completion_fails :: "ChatModel \<Rightarrow> bool \<Rightarrow> BaseMessage list \<Rightarrow> bool" where
  "completion_fails chatModel streaming msgs =
     (if streaming
      then (case stream chatModel msgs of Inl _ \<Rightarrow> True | Inr (_, failure) \<Rightarrow> failure \<noteq> None)
      else (case invoke chatModel msgs of Inl _ \<Rightarrow> True | Inr _ \<Rightarrow> False))"

section \<open>Stores and requests the properties are tried on\<close>




text \<open>An empty store and a first turn.\<close>

definition empty_db :: Database where
  "empty_db = \<lparr>messages = [], sqlite_sequence = 0\<rparr>"

definition hi_turn :: Message where
  "hi_turn = \<lparr>msg_id = None, session_id = ''s1'', role = User, content = ''hi'', timestamp = None\<rparr>"

text \<open>Three sessions, one of them with two turns.\<close>

definition three_sessions_db :: Database where
  "three_sessions_db =
     \<lparr>messages =
        [\<lparr>row_id = 1, row_session_id = ''b'', row_role = User, row_content = ''x'',
          row_timestamp = ''2024-01-01 00:00:01''\<rparr>,
         \<lparr>row_id = 2, row_session_id = ''default'', row_role = Assistant, row_content = '''',
          row_timestamp = ''2024-01-01 00:00:02''\<rparr>,
         \<lparr>row_id = 3, row_session_id = ''b'', row_role = Assistant, row_content = ''y'',
          row_timestamp = ''2024-01-01 00:00:03''\<rparr>,
         \<lparr>row_id = 4, row_session_id = ''a'', row_role = User, row_content = ''z'',
          row_timestamp = ''2024-01-01 00:00:04''\<rparr>],
      sqlite_sequence = 4\<rparr>"

text \<open>
  A session whose two turns carry the timestamp 00:00:05, and the row a request \<open>hi\<close>
  adds to it when the clock reads 00:00:04 at the insert.
\<close>

definition ping_row :: row where
  "ping_row = \<lparr>row_id = 1, row_session_id = ''s1'', row_role = User, row_content = ''ping'',
               row_timestamp = ''2024-01-01 00:00:05''\<rparr>"

definition pong_row :: row where
  "pong_row = \<lparr>row_id = 2, row_session_id = ''s1'', row_role = Assistant, row_content = ''pong'',
               row_timestamp = ''2024-01-01 00:00:05''\<rparr>"

definition ping_pong_db :: Database where
  "ping_pong_db = \<lparr>messages = [ping_row, pong_row], sqlite_sequence = 2\<rparr>"

definition hi_row :: row where
  "hi_row = \<lparr>row_id = 3, row_session_id = ''s1'', row_role = User, row_content = ''hi'',
             row_timestamp = ''2024-01-01 00:00:04''\<rparr>"

text \<open>A completion service that answers \<open>ok\<close>, in two chunks when streaming.\<close>

definition ok_model :: ChatModel where
  "ok_model = \<lparr>invoke = (\<lambda>msgs. Inr ''ok''), stream = (\<lambda>msgs. Inr ([''o'', ''k''], None))\<rparr>"

text \<open>A completion service whose chunks hold a double quote and a line feed.\<close>

definition quoting_model :: ChatModel where
  "quoting_model =
     \<lparr>invoke = (\<lambda>msgs. Inr (''a'' @ [CHR 0x22, CHR 0x0A] @ ''b'')),
      stream = (\<lambda>msgs. Inr ([''a'' @ [CHR 0x22], [CHR 0x0A] @ ''b''], None))\<rparr>"

text \<open>A completion service that is down.\<close>

definition down_model :: ChatModel where
  "down_model = \<lparr>invoke = (\<lambda>msgs. Inl UpstreamError), stream = (\<lambda>msgs. Inl UpstreamError)\<rparr>"

definition hi_request :: request_body where
  "hi_request = \<lparr>req_message = Some ''hi'', req_sessionId = Some ''s1'', req_streaming = None\<rparr>"

definition hi_streaming_request :: request_body where
  "hi_streaming_request =
     \<lparr>req_message = Some ''hi'', req_sessionId = Some ''s1'', req_streaming = Some True\<rparr>"

section \<open>Facts about the store\<close>

text \<open>The stable sorter meets ORDER BY; what follows from meeting it.\<close>

lemma timestamp_ascending_sort_key: "timestamp_ascending (sort_key row_timestamp rs)"
  unfolding timestamp_ascending_def using sorted_sort_key[of row_timestamp rs]
  by (simp only: sorted_map)

lemma stable_sorter_ok: "order_by_timestamp stable_sorter"
  by (simp add: order_by_timestamp_def order_by_timestamp_at_def stable_sorter_def timestamp_ascending_sort_key)

lemma sorter_Nil: "order_by_timestamp srt \<Longrightarrow> srt [] = []"
proof -
  assume "order_by_timestamp srt"
  then have "mset (srt []) = mset []"
    unfolding order_by_timestamp_def order_by_timestamp_at_def by blast
  then show ?thesis by simp
qed

lemma sorter_mset: "order_by_timestamp srt \<Longrightarrow> mset (srt rs) = mset rs"
  unfolding order_by_timestamp_def order_by_timestamp_at_def by blast

lemma sorter_sorted: "order_by_timestamp srt \<Longrightarrow> timestamp_ascending (srt rs)"
  unfolding order_by_timestamp_def order_by_timestamp_at_def by blast

lemma sorter_length: "order_by_timestamp srt \<Longrightarrow> length (srt rs) = length rs"
  by (rule mset_eq_length) (rule sorter_mset)

text \<open>The rowid handed out is above every rowid in the table.\<close>

lemma fold_max_ge: "m \<le> fold max xs (m::nat)"
proof (induction xs arbitrary: m)
  case Nil show ?case by simp
next
  case (Cons a xs)
  have "max a m \<le> fold max xs (max a m)" by (rule Cons.IH)
  then show ?case by simp
qed

lemma fold_max_mem: "x \<in> set xs \<Longrightarrow> x \<le> fold max xs (m::nat)"
proof (induction xs arbitrary: m)
  case Nil then show ?case by simp
next
  case (Cons a xs)
  show ?case
  proof (cases "x = a")
    case True
    have "max a m \<le> fold max xs (max a m)" by (rule fold_max_ge)
    then show ?thesis using True by simp
  next
    case False
    then show ?thesis using Cons by simp
  qed
qed

lemma next_rowid_fresh: "r \<in> set (messages d) \<Longrightarrow> row_id r < next_rowid d"
  by (simp add: next_rowid_def fold_max_mem less_Suc_eq_le)

lemma messages_sql_insert:
  "messages (snd (sql_insert now d sid r c)) =
     messages d @ [\<lparr>row_id = next_rowid d, row_session_id = sid, row_role = r, row_content = c, row_timestamp = now\<rparr>]"
  by (simp add: sql_insert_def Let_def)




lemma ids_ascending_sql_insert: "ids_ascending d \<Longrightarrow> ids_ascending (snd (sql_insert now d sid r c))"
  by (simp add: ids_ascending_def messages_sql_insert sorted_wrt_append next_rowid_fresh)

lemma ids_ascending_delete:
  "ids_ascending d \<Longrightarrow> ids_ascending (d\<lparr>messages := filter P (messages d)\<rparr>)"
  by (simp add: ids_ascending_def sorted_wrt_filter)

lemma saveMessage_open:
  "saveMessage now (Some d) m =
     Inr (Some (snd (sql_insert now d (session_id m) (role m) (content m))),
          m\<lparr>msg_id := Some (next_rowid d)\<rparr>)"
  by (simp add: saveMessage_def sql_insert_def Let_def)

lemma ids_ascending_kept:
  assumes "ids_ascending d"
  shows "ids_ascending (snd (sql_insert now d sid r c))"
    and "deleteSession (Some d) sid = Inr (Some d') \<Longrightarrow> ids_ascending d'"
    and "createSession now (Some d) sid = Inr (Some d') \<Longrightarrow> ids_ascending d'"
    and "saveMessage now (Some d) m = Inr (Some d', m') \<Longrightarrow> ids_ascending d'"
proof -
  show "ids_ascending (snd (sql_insert now d sid r c))"
    using assms by (rule ids_ascending_sql_insert)
  show "deleteSession (Some d) sid = Inr (Some d') \<Longrightarrow> ids_ascending d'"
    using ids_ascending_delete[OF assms] by (auto simp: deleteSession_def)
  show "createSession now (Some d) sid = Inr (Some d') \<Longrightarrow> ids_ascending d'"
    using ids_ascending_sql_insert[OF assms] by (auto simp: createSession_def)
  show "saveMessage now (Some d) m = Inr (Some d', m') \<Longrightarrow> ids_ascending d'"
    using ids_ascending_sql_insert[OF assms] by (auto simp: saveMessage_open)
qed

lemma ids_ascending_empty_db: "ids_ascending empty_db"
  by (simp add: ids_ascending_def empty_db_def)

text \<open>Every store the module can leave behind has ascending rowids.\<close>

lemma written_by_module_ids_ascending: "written_by_module d \<Longrightarrow> ids_ascending d"
proof (induction rule: written_by_module.induct)
  case fresh
  show ?case by (simp add: ids_ascending_def)
next
  case (inserted d now sid r c)
  then show ?case by (simp add: ids_ascending_sql_insert)
next
  case (deleted d sid)
  then show ?case by (simp add: ids_ascending_delete)
qed

lemma written_by_module_kept:
  assumes "written_by_module d"
  shows "saveMessage now (Some d) m = Inr (Some d', m') \<Longrightarrow> written_by_module d'"
    and "createSession now (Some d) sid = Inr (Some d') \<Longrightarrow> written_by_module d'"
    and "deleteSession (Some d) sid = Inr (Some d') \<Longrightarrow> written_by_module d'"
  using assms
  by (auto simp: saveMessage_open createSession_def deleteSession_def
      intro: written_by_module.inserted written_by_module.deleted)


text \<open>In a list in timestamp order no row is stamped later than the last.\<close>

lemma timestamp_ascending_last:
  "timestamp_ascending rs \<Longrightarrow> r \<in> set rs \<Longrightarrow> row_timestamp r \<le> row_timestamp (last rs)"
  unfolding timestamp_ascending_def
proof (induction rs)
  case Nil
  then show ?case by simp
next
  case (Cons a rs)
  show ?case
  proof (cases "rs = []")
    case True
    then show ?thesis using Cons.prems by simp
  next
    case False
    then have l: "last rs \<in> set rs" by simp
    show ?thesis
    proof (cases "r = a")
      case True
      then show ?thesis using Cons.prems(1) l False by auto
    next
      case neq: False
      then show ?thesis using Cons False by auto
    qed
  qed
qed

text \<open>A row stamped no earlier than the others stays last under the stable sort.\<close>

lemma insort_key_before_last:
  "f x \<le> f y \<Longrightarrow> insort_key f x (zs @ [y]) = insort_key f x zs @ [y]"
  by (induction zs) simp_all

lemma sort_key_snoc:
  "\<forall>x\<in>set xs. f x \<le> f y \<Longrightarrow> sort_key f (xs @ [y]) = sort_key f xs @ [y]"
  by (induction xs) (simp_all add: insort_key_before_last)

section \<open>Facts about the handler\<close>

text \<open>The loop over the chunks, and what it writes.\<close>

lemma forward_chunks_eq:
  "forward_chunks chunks acc = (acc @ concat chunks, chunk_events chunks)"
  by (induction chunks arbitrary: acc) (simp_all add: chunk_events_def)

lemma written_append: "written (xs @ ys) = written xs @ written ys"
  by (induction xs rule: written.induct) simp_all

lemma written_chunk_events:
  "written (chunk_events chunks) = map (\<lambda>c. sse_data (JSON_stringify_content c)) chunks"
  by (induction chunks) (simp_all add: chunk_events_def)

lemma written_sse_headers: "written sse_headers = []"
  by (simp add: sse_headers_def)

text \<open>The frames, letter by letter.\<close>

lemma sse_content_frame:
  "sse_data (JSON_stringify_content c) =
     ''data: {'' @ [CHR 0x22] @ ''content'' @ [CHR 0x22] @ '':'' @ QuoteJSONString c @ ''}'' @
     [CHR 0x0A, CHR 0x0A]"
  by (simp add: sse_data_def JSON_stringify_content_def)

lemma sse_done_frame:
  "sse_data JSON_stringify_done =
     ''data: {'' @ [CHR 0x22] @ ''done'' @ [CHR 0x22] @ '':true}'' @ [CHR 0x0A, CHR 0x0A]"
  by (simp add: sse_data_def JSON_stringify_done_def)

text \<open>The escapes are undone by \<open>JSON_unquote\<close>, so a frame gives its chunk back.\<close>

lemma unhex_hex_digit_upto: "\<forall>n\<in>set [0..<16]. unhex (hex_digit n) = Some n"
  by code_simp

lemma unhex_hex_digit: "n < 16 \<Longrightarrow> unhex (hex_digit n) = Some n"
  using unhex_hex_digit_upto by simp

lemma unhex_zero: "unhex (CHR ''0'') = Some 0"
  by code_simp

lemma JSON_unquote_UnicodeEscape:
  assumes "(of_char c :: nat) < 0x20"
  shows "JSON_unquote (UnicodeEscape c @ rest) = map_option ((#) c) (JSON_unquote rest)"
proof -
  let ?n = "of_char c :: nat"
  have d: "?n div 16 < 16" and m: "?n mod 16 < 16" using assms by simp_all
  have c: "char_of (16 * (?n div 16) + ?n mod 16) = c" by simp
  show ?thesis
    by (simp add: UnicodeEscape_def unhex_zero unhex_hex_digit[OF d] unhex_hex_digit[OF m] c)
qed

lemma JSON_unquote_QuoteJSONChar:
  "JSON_unquote (QuoteJSONChar c @ rest) = map_option ((#) c) (JSON_unquote rest)"
  by (simp add: QuoteJSONChar_def JSON_unquote_UnicodeEscape)

lemma JSON_unquote_quoted:
  "JSON_unquote (concat (map QuoteJSONChar s)) = Some s"
  by (induction s) (simp_all add: JSON_unquote_QuoteJSONChar)

lemma content_of_frame_content:
  "content_of_frame (sse_data (JSON_stringify_content c)) = Some c"
  by (simp add: content_of_frame_def sse_data_def JSON_stringify_content_def QuoteJSONString_def
      Let_def JSON_unquote_quoted)

lemma content_of_frame_done: "content_of_frame (sse_data JSON_stringify_done) = None"
  by (simp add: content_of_frame_def sse_data_def JSON_stringify_done_def Let_def)

text \<open>The handler on a request that passes the validation, on an open store.\<close>

lemma post_api_chat_valid:
  assumes "req_message body = Some message" and "message \<noteq> []"
  shows "post_api_chat srt chatModel now1 now2 (Some d) (Some body) =
     (let sessionId = sessionId_of body;
          d1 = db_after_user now1 d sessionId message;
          msgs = transcript srt now1 d sessionId message;
          (db2, evs) =
             (if req_streaming body = Some True
              then streaming_branch chatModel now2 (Some d1) sessionId msgs
              else buffered_branch chatModel now2 (Some d1) sessionId msgs)
      in (db2, SaveMessage ((user_turn sessionId message)\<lparr>msg_id := Some (next_rowid d)\<rparr>)
               # GetConversationHistory sessionId # evs))"
  using assms
  by (simp add: post_api_chat_def saveMessage_open getConversationHistory_def Let_def
      transcript_def history_after_user_def db_after_user_def user_turn_def)

text \<open>The branches on an open store, by what the completion service answers.\<close>

lemma buffered_branch_ok:
  assumes "invoke chatModel msgs = Inr answer"
  shows "buffered_branch chatModel now (Some d1) sessionId msgs =
     (Some (snd (sql_insert now d1 sessionId Assistant answer)),
      [ModelInvoke msgs, InvokeResolved answer,
       SaveMessage ((assistant_turn sessionId answer)\<lparr>msg_id := Some (next_rowid d1)\<rparr>),
       ResJson (MessageBody answer)])"
  using assms by (simp add: buffered_branch_def saveMessage_open assistant_turn_def)

lemma buffered_branch_failed:
  assumes "invoke chatModel msgs = Inl e"
  shows "buffered_branch chatModel now (Some d1) sessionId msgs =
     (Some d1, [ModelInvoke msgs, ModelThrew e] @ internal_error e)"
  using assms by (simp add: buffered_branch_def)

lemma streaming_branch_ok:
  assumes "stream chatModel msgs = Inr (chunks, None)"
  shows "streaming_branch chatModel now (Some d1) sessionId msgs =
     (Some (snd (sql_insert now d1 sessionId Assistant (concat chunks))),
      sse_headers @ [ModelStream msgs] @ chunk_events chunks @
      [StreamEnded,
       SaveMessage ((assistant_turn sessionId (concat chunks))\<lparr>msg_id := Some (next_rowid d1)\<rparr>),
       ResWrite (sse_data JSON_stringify_done), ResEnd])"
  using assms
  by (simp add: streaming_branch_def forward_chunks_eq saveMessage_open assistant_turn_def)

lemma streaming_branch_refused:
  assumes "stream chatModel msgs = Inl e"
  shows "streaming_branch chatModel now (Some d1) sessionId msgs =
     (Some d1, sse_headers @ [ModelStream msgs, ModelThrew e] @ internal_error e)"
  using assms by (simp add: streaming_branch_def)

lemma streaming_branch_aborted:
  assumes "stream chatModel msgs = Inr (chunks, Some e)"
  shows "streaming_branch chatModel now (Some d1) sessionId msgs =
     (Some d1, sse_headers @ [ModelStream msgs] @ chunk_events chunks @ [ModelThrew e] @ internal_error e)"
  using assms by (simp add: streaming_branch_def forward_chunks_eq)

text \<open>
  A parsed body whose message is absent or empty is answered 400 before anything else is
  done.
\<close>

lemma post_api_chat_rejects_empty_message:
  "req_message body = None \<or> req_message body = Some [] \<Longrightarrow>
   post_api_chat srt chatModel now1 now2 db (Some body) =
     (db, [ResStatus 400, ResJson (ErrorBody ''Message is required'')])"
  by (auto simp: post_api_chat_def bad_request_def)

text \<open>The order of saves and completion events in each branch.\<close>

lemma saves_simps:
  "saves r (SaveMessage m) = (role m = r)"
  "saves r (GetConversationHistory sid) = False"
  "saves r (ModelInvoke msgs) = False"
  "saves r (InvokeResolved a) = False"
  "saves r (ModelStream msgs) = False"
  "saves r (StreamChunk c) = False"
  "saves r StreamEnded = False"
  "saves r (ModelThrew e) = False"
  "saves r (ConsoleError e) = False"
  "saves r (ResStatus n) = False"
  "saves r (ResJson b) = False"
  "saves r (ResSetHeader k v) = False"
  "saves r (ResWrite s) = False"
  "saves r ResEnd = False"
  by (simp_all add: saves_def)

lemma is_completion_simps:
  "is_completion (SaveMessage m) = False"
  "is_completion (GetConversationHistory sid) = False"
  "is_completion (ModelInvoke msgs) = True"
  "is_completion (InvokeResolved a) = True"
  "is_completion (ModelStream msgs) = True"
  "is_completion (StreamChunk c) = True"
  "is_completion StreamEnded = True"
  "is_completion (ModelThrew e) = True"
  "is_completion (ConsoleError e) = False"
  "is_completion (ResStatus n) = False"
  "is_completion (ResJson b) = False"
  "is_completion (ResSetHeader k v) = False"
  "is_completion (ResWrite s) = False"
  "is_completion ResEnd = False"
  by (simp_all add: is_completion_def)

lemma chunk_events_cases:
  "e \<in> set (chunk_events chunks) \<Longrightarrow> (\<exists>c. e = StreamChunk c) \<or> (\<exists>s. e = ResWrite s)"
  by (auto simp: chunk_events_def)

lemma saves_chunk_events: "e \<in> set (chunk_events chunks) \<Longrightarrow> \<not> saves r e"
  by (auto simp: saves_def dest: chunk_events_cases)

lemma saves_sse_headers: "e \<in> set sse_headers \<Longrightarrow> \<not> saves r e"
  by (auto simp: saves_def sse_headers_def)

lemma saves_internal_error: "e \<in> set (internal_error x) \<Longrightarrow> \<not> saves r e"
  by (auto simp: saves_def internal_error_def)

lemma completed_internal_error: "e \<in> set (internal_error x) \<Longrightarrow> \<not> is_completed e"
  by (auto simp: is_completed_def internal_error_def)

lemma completed_sse_headers: "e \<in> set sse_headers \<Longrightarrow> \<not> is_completed e"
  by (auto simp: is_completed_def sse_headers_def)

lemma completed_chunk_events: "e \<in> set (chunk_events chunks) \<Longrightarrow> \<not> is_completed e"
  by (auto simp: is_completed_def dest: chunk_events_cases)

lemma all_before_no_later:
  "(\<forall>e\<in>set tr. \<not> P e) \<Longrightarrow> all_before P Q tr"
  unfolding all_before_def by (induction tr) auto

lemma all_before_no_earlier:
  "(\<forall>e\<in>set tr. \<not> Q e) \<Longrightarrow> all_before P Q tr"
  unfolding all_before_def by (induction tr) auto

lemma all_before_append:
  "all_before P Q (xs @ ys) =
     (all_before P Q xs \<and> all_before P Q ys \<and> (\<forall>a\<in>set xs. \<forall>b\<in>set ys. \<not> (Q a \<and> P b)))"
  by (simp add: all_before_def sorted_wrt_append)

lemma all_before_Cons:
  "all_before P Q (x # ys) = ((\<forall>b\<in>set ys. \<not> (Q x \<and> P b)) \<and> all_before P Q ys)"
  by (simp add: all_before_def)

lemma branch_facts:
  assumes "(db2, evs) =
       (if streaming then streaming_branch chatModel now (Some d1) sessionId msgs
        else buffered_branch chatModel now (Some d1) sessionId msgs)"
  shows "(\<exists>e\<in>set evs. is_completion e) \<and>
         (\<forall>e\<in>set evs. \<not> saves User e) \<and>
         all_before is_completion (saves Assistant) evs \<and>
         ((\<exists>e\<in>set evs. saves Assistant e) \<longleftrightarrow> \<not> completion_fails chatModel streaming msgs) \<and>
         ((\<exists>e\<in>set evs. is_completed e) \<longleftrightarrow> \<not> completion_fails chatModel streaming msgs) \<and>
         (completion_fails chatModel streaming msgs \<longrightarrow> db2 = Some d1) \<and>
         (\<exists>d'. db2 = Some d' \<and> set (messages d1) \<subseteq> set (messages d'))"
proof (cases streaming)
  case False
  show ?thesis
  proof (cases "invoke chatModel msgs")
    case (Inl e)
    have r: "db2 = Some d1" "evs = [ModelInvoke msgs, ModelThrew e] @ internal_error e"
      using assms False by (simp_all add: buffered_branch_failed[OF Inl])
    have f: "completion_fails chatModel streaming msgs"
      using False Inl by (simp add: completion_fails_def)
    show ?thesis unfolding r using f
      by (auto simp: all_before_Cons is_completion_def saves_def is_completed_def internal_error_def
          all_before_def)
  next
    case (Inr answer)
    have r: "db2 = Some (snd (sql_insert now d1 sessionId Assistant answer))"
      "evs = [ModelInvoke msgs, InvokeResolved answer,
              SaveMessage ((assistant_turn sessionId answer)\<lparr>msg_id := Some (next_rowid d1)\<rparr>),
              ResJson (MessageBody answer)]"
      using assms False by (simp_all add: buffered_branch_ok[OF Inr])
    have f: "\<not> completion_fails chatModel streaming msgs"
      using False Inr by (simp add: completion_fails_def)
    show ?thesis unfolding r using f
      by (auto simp: all_before_def is_completion_def saves_def is_completed_def assistant_turn_def
          messages_sql_insert)
  qed
next
  case True
  show ?thesis
  proof (cases "stream chatModel msgs")
    case (Inl e)
    have r: "db2 = Some d1" "evs = sse_headers @ [ModelStream msgs, ModelThrew e] @ internal_error e"
      using assms True by (simp_all add: streaming_branch_refused[OF Inl])
    have f: "completion_fails chatModel streaming msgs"
      using True Inl by (simp add: completion_fails_def)
    show ?thesis unfolding r using f
      by (auto simp: all_before_def is_completion_def saves_def is_completed_def internal_error_def
          sse_headers_def)
  next
    case (Inr p)
    obtain chunks failure where p: "p = (chunks, failure)" by (cases p)
    show ?thesis
    proof (cases failure)
      case None
      have s: "stream chatModel msgs = Inr (chunks, None)" using Inr p None by simp
      have r: "db2 = Some (snd (sql_insert now d1 sessionId Assistant (concat chunks)))"
        "evs = sse_headers @ [ModelStream msgs] @ chunk_events chunks @
           [StreamEnded,
            SaveMessage ((assistant_turn sessionId (concat chunks))\<lparr>msg_id := Some (next_rowid d1)\<rparr>),
            ResWrite (sse_data JSON_stringify_done), ResEnd]"
        using assms True by (simp_all add: streaming_branch_ok[OF s])
      have f: "\<not> completion_fails chatModel streaming msgs"
        using True s by (simp add: completion_fails_def)
      have 1: "\<exists>e\<in>set evs. is_completion e" unfolding r by (simp add: is_completion_def)
      have 2: "\<forall>e\<in>set evs. \<not> saves User e" unfolding r
        by (auto simp: saves_def assistant_turn_def dest: saves_sse_headers saves_chunk_events)
      have 3: "all_before is_completion (saves Assistant) evs" unfolding r
        by (auto simp: all_before_append all_before_Cons saves_simps is_completion_simps
            dest: saves_sse_headers saves_chunk_events
            intro!: all_before_no_earlier)
      have 4: "\<exists>e\<in>set evs. saves Assistant e" unfolding r
        by (simp add: saves_def assistant_turn_def)
      have 5: "\<exists>e\<in>set evs. is_completed e" unfolding r by (simp add: is_completed_def)
      have 6: "\<exists>d'. db2 = Some d' \<and> set (messages d1) \<subseteq> set (messages d')"
        unfolding r by (auto simp: messages_sql_insert)
      from 1 2 3 4 5 6 f show ?thesis by blast
    next
      case (Some e)
      have s: "stream chatModel msgs = Inr (chunks, Some e)" using Inr p Some by simp
      have r: "db2 = Some d1"
        "evs = sse_headers @ [ModelStream msgs] @ chunk_events chunks @ [ModelThrew e] @ internal_error e"
        using assms True by (simp_all add: streaming_branch_aborted[OF s])
      have f: "completion_fails chatModel streaming msgs"
        using True s by (simp add: completion_fails_def)
      have 1: "\<exists>e\<in>set evs. is_completion e" unfolding r by (simp add: is_completion_def)
      have 2: "\<forall>e\<in>set evs. \<not> saves r' e" for r' unfolding r
        by (auto simp: saves_def dest: saves_sse_headers saves_chunk_events saves_internal_error)
      have 3: "all_before is_completion (saves Assistant) evs"
        by (rule all_before_no_earlier) (rule 2)
      have 5: "\<forall>e\<in>set evs. \<not> is_completed e" unfolding r
        by (auto simp: is_completed_def
            dest: completed_sse_headers completed_chunk_events completed_internal_error)
      from 1 2 3 5 f r(1) show ?thesis by blast
    qed
  qed
qed

text \<open>What each branch reads from the service, and what it saves.\<close>

lemma chunks_read_append: "chunks_read (xs @ ys) = chunks_read xs @ chunks_read ys"
  by (induction xs rule: chunks_read.induct) simp_all

lemma chunks_read_chunk_events: "chunks_read (chunk_events chunks) = chunks"
  by (induction chunks) (simp_all add: chunk_events_def)

lemma chunks_read_sse_headers: "chunks_read sse_headers = []"
  by (simp add: sse_headers_def)

lemma chunks_read_internal_error: "chunks_read (internal_error e) = []"
  by (simp add: internal_error_def)

lemma ended_chunk_events:
  "StreamEnded \<notin> set (chunk_events chunks)" "InvokeResolved a \<notin> set (chunk_events chunks)"
  by (auto dest: chunk_events_cases)

lemma ended_sse_headers:
  "StreamEnded \<notin> set sse_headers" "InvokeResolved a \<notin> set sse_headers"
  by (simp_all add: sse_headers_def)

lemma ended_internal_error:
  "StreamEnded \<notin> set (internal_error e)" "InvokeResolved a \<notin> set (internal_error e)"
  by (simp_all add: internal_error_def)

lemma branch_reads:
  assumes "(db2, evs) =
       (if streaming then streaming_branch chatModel now (Some d1) sessionId msgs
        else buffered_branch chatModel now (Some d1) sessionId msgs)"
  shows "chunks_read evs = delivered chatModel streaming msgs \<and>
         (\<forall>e\<in>set evs. saves Assistant e \<longrightarrow>
            e = SaveMessage ((assistant_turn sessionId (reply chatModel streaming msgs))
                               \<lparr>msg_id := Some (next_rowid d1)\<rparr>)) \<and>
         (\<forall>a. InvokeResolved a \<in> set evs \<longleftrightarrow> (\<not> streaming \<and> invoke chatModel msgs = Inr a)) \<and>
         (StreamEnded \<in> set evs \<longleftrightarrow>
            (streaming \<and> (\<exists>chunks. stream chatModel msgs = Inr (chunks, None))))"
proof (cases streaming)
  case False
  show ?thesis
  proof (cases "invoke chatModel msgs")
    case (Inl e)
    have r: "evs = [ModelInvoke msgs, ModelThrew e] @ internal_error e"
      using assms False by (simp add: buffered_branch_failed[OF Inl])
    show ?thesis unfolding r using False Inl
      by (simp add: delivered_def saves_simps internal_error_def)
  next
    case (Inr answer)
    have r: "evs = [ModelInvoke msgs, InvokeResolved answer,
              SaveMessage ((assistant_turn sessionId answer)\<lparr>msg_id := Some (next_rowid d1)\<rparr>),
              ResJson (MessageBody answer)]"
      using assms False by (simp add: buffered_branch_ok[OF Inr])
    show ?thesis unfolding r using False Inr
      by (auto simp: delivered_def reply_def saves_simps)
  qed
next
  case True
  show ?thesis
  proof (cases "stream chatModel msgs")
    case (Inl e)
    have r: "evs = sse_headers @ [ModelStream msgs, ModelThrew e] @ internal_error e"
      using assms True by (simp add: streaming_branch_refused[OF Inl])
    have 1: "chunks_read evs = delivered chatModel streaming msgs" unfolding r using True Inl
      by (simp add: delivered_def chunks_read_append chunks_read_sse_headers chunks_read_internal_error)
    have 2: "\<forall>e\<in>set evs. \<not> saves Assistant e" unfolding r
      by (auto simp: saves_simps dest: saves_sse_headers saves_internal_error)
    have 3: "InvokeResolved a \<notin> set evs" for a unfolding r
      by (simp add: ended_sse_headers ended_internal_error)
    have 4: "StreamEnded \<notin> set evs" unfolding r
      by (simp add: ended_sse_headers ended_internal_error)
    from 1 2 3 4 True Inl show ?thesis by auto
  next
    case (Inr p)
    obtain chunks failure where p: "p = (chunks, failure)" by (cases p)
    show ?thesis
    proof (cases failure)
      case None
      have s: "stream chatModel msgs = Inr (chunks, None)" using Inr p None by simp
      have r: "evs = sse_headers @ [ModelStream msgs] @ chunk_events chunks @
           [StreamEnded,
            SaveMessage ((assistant_turn sessionId (concat chunks))\<lparr>msg_id := Some (next_rowid d1)\<rparr>),
            ResWrite (sse_data JSON_stringify_done), ResEnd]"
        using assms True by (simp add: streaming_branch_ok[OF s])
      have d: "delivered chatModel streaming msgs = chunks" "reply chatModel streaming msgs = concat chunks"
        using True s by (simp_all add: delivered_def reply_def)
      have 1: "chunks_read evs = delivered chatModel streaming msgs" unfolding r d
        by (simp add: chunks_read_append chunks_read_sse_headers chunks_read_chunk_events)
      have 2: "\<forall>e\<in>set evs. saves Assistant e \<longrightarrow>
            e = SaveMessage ((assistant_turn sessionId (reply chatModel streaming msgs))
                               \<lparr>msg_id := Some (next_rowid d1)\<rparr>)"
        unfolding r d by (auto simp: saves_simps dest: saves_sse_headers saves_chunk_events)
      have 3: "InvokeResolved a \<notin> set evs" for a unfolding r
        by (simp add: ended_sse_headers ended_chunk_events)
      have 4: "StreamEnded \<in> set evs" unfolding r by simp
      from 1 2 3 4 True s show ?thesis by auto
    next
      case (Some e)
      have s: "stream chatModel msgs = Inr (chunks, Some e)" using Inr p Some by simp
      have r: "evs = sse_headers @ [ModelStream msgs] @ chunk_events chunks @ [ModelThrew e] @ internal_error e"
        using assms True by (simp add: streaming_branch_aborted[OF s])
      have d: "delivered chatModel streaming msgs = chunks"
        using True s by (simp add: delivered_def)
      have 1: "chunks_read evs = delivered chatModel streaming msgs" unfolding r d
        by (simp add: chunks_read_append chunks_read_sse_headers chunks_read_chunk_events
            chunks_read_internal_error)
      have 2: "\<forall>e\<in>set evs. \<not> saves Assistant e" unfolding r
        by (auto simp: saves_simps dest: saves_sse_headers saves_chunk_events saves_internal_error)
      have 3: "InvokeResolved a \<notin> set evs" for a unfolding r
        by (simp add: ended_sse_headers ended_chunk_events ended_internal_error)
      have 4: "StreamEnded \<notin> set evs" unfolding r
        by (simp add: ended_sse_headers ended_chunk_events ended_internal_error)
      from 1 2 3 4 True s show ?thesis by auto
    qed
  qed
qed

text \<open>A request that passes the validation, on an open store, from its first event on.\<close>

lemma valid_request_facts:
  assumes "req_message body = Some message" and "message \<noteq> []"
  shows "\<exists>d' tr.
      post_api_chat srt chatModel now1 now2 (Some d) (Some body) =
        (Some d', SaveMessage ((user_turn (sessionId_of body) message)\<lparr>msg_id := Some (next_rowid d)\<rparr>) # tr) \<and>
      (\<exists>e\<in>set tr. is_completion e) \<and>
      all_before (saves User) is_completion
        (SaveMessage ((user_turn (sessionId_of body) message)\<lparr>msg_id := Some (next_rowid d)\<rparr>) # tr) \<and>
      all_before is_completion (saves Assistant)
        (SaveMessage ((user_turn (sessionId_of body) message)\<lparr>msg_id := Some (next_rowid d)\<rparr>) # tr) \<and>
      ((\<exists>e\<in>set tr. saves Assistant e) \<longleftrightarrow>
         \<not> completion_fails chatModel (req_streaming body = Some True)
             (transcript srt now1 d (sessionId_of body) message)) \<and>
      ((\<exists>e\<in>set tr. is_completed e) \<longleftrightarrow>
         \<not> completion_fails chatModel (req_streaming body = Some True)
             (transcript srt now1 d (sessionId_of body) message)) \<and>
      \<lparr>row_id = next_rowid d, row_session_id = sessionId_of body, row_role = User,
        row_content = message, row_timestamp = now1\<rparr> \<in> set (messages d') \<and>
      set (messages d) \<subseteq> set (messages d') \<and>
      (completion_fails chatModel (req_streaming body = Some True)
             (transcript srt now1 d (sessionId_of body) message) \<longrightarrow>
         d' = db_after_user now1 d (sessionId_of body) message)"
proof -
  let ?sid = "sessionId_of body"
  let ?d1 = "db_after_user now1 d ?sid message"
  let ?msgs = "transcript srt now1 d ?sid message"
  let ?u = "SaveMessage ((user_turn ?sid message)\<lparr>msg_id := Some (next_rowid d)\<rparr>)"
  let ?st = "req_streaming body = Some True"
  obtain db2 evs where b: "(db2, evs) =
       (if ?st then streaming_branch chatModel now2 (Some ?d1) ?sid ?msgs
        else buffered_branch chatModel now2 (Some ?d1) ?sid ?msgs)"
    by (metis surj_pair)
  note f = branch_facts[OF b]
  have run: "post_api_chat srt chatModel now1 now2 (Some d) (Some body) =
               (db2, ?u # GetConversationHistory ?sid # evs)"
    using post_api_chat_valid[OF assms, of srt chatModel now1 now2 d] b[symmetric]
    by (simp add: Let_def)
  from f obtain d' where d': "db2 = Some d'" "set (messages ?d1) \<subseteq> set (messages d')" by blast
  have m1: "messages ?d1 = messages d @
      [\<lparr>row_id = next_rowid d, row_session_id = ?sid, row_role = User,
        row_content = message, row_timestamp = now1\<rparr>]"
    unfolding db_after_user_def by (rule messages_sql_insert)
  have u_not_asst: "\<not> saves Assistant ?u" by (simp add: saves_simps user_turn_def)
  have 1: "\<exists>e\<in>set (GetConversationHistory ?sid # evs). is_completion e" using f by auto
  have 2: "all_before (saves User) is_completion (?u # GetConversationHistory ?sid # evs)"
    using f by (auto simp: all_before_Cons is_completion_simps intro: all_before_no_later)
  have 3: "all_before is_completion (saves Assistant) (?u # GetConversationHistory ?sid # evs)"
    using f u_not_asst by (simp add: all_before_Cons saves_simps)
  have 4: "(\<exists>e\<in>set (GetConversationHistory ?sid # evs). saves Assistant e) \<longleftrightarrow>
         \<not> completion_fails chatModel ?st ?msgs"
    using f by (simp add: saves_simps)
  have 5: "(\<exists>e\<in>set (GetConversationHistory ?sid # evs). is_completed e) \<longleftrightarrow>
         \<not> completion_fails chatModel ?st ?msgs"
    using f by (simp add: is_completed_def)
  have 6: "\<lparr>row_id = next_rowid d, row_session_id = ?sid, row_role = User,
        row_content = message, row_timestamp = now1\<rparr> \<in> set (messages d')"
    using d'(2) m1 by auto
  have 7: "set (messages d) \<subseteq> set (messages d')" using d'(2) m1 by auto
  have 8: "completion_fails chatModel ?st ?msgs \<longrightarrow> d' = ?d1" using f d'(1) by auto
  show ?thesis
    apply (rule exI[of _ d'])
    apply (rule exI[of _ "GetConversationHistory ?sid # evs"])
    using run d'(1) 1 2 3 4 5 6 7 8 by blast
qed

lemma buffered_branch_calls:
  "\<exists>post. snd (buffered_branch chatModel now db sessionId msgs) = ModelInvoke msgs # post"
  by (auto simp: buffered_branch_def split: sum.splits prod.splits)

lemma streaming_branch_calls:
  "\<exists>post. snd (streaming_branch chatModel now db sessionId msgs) =
           sse_headers @ ModelStream msgs # post"
  by (auto simp: streaming_branch_def Let_def split: sum.splits prod.splits option.splits)

lemma valid_request_reads:
  assumes "req_message body = Some message" and "message \<noteq> []"
  shows "\<exists>d' tr.
      post_api_chat srt chatModel now1 now2 (Some d) (Some body) =
        (d', SaveMessage ((user_turn (sessionId_of body) message)\<lparr>msg_id := Some (next_rowid d)\<rparr>) # tr) \<and>
      chunks_read tr =
        delivered chatModel (req_streaming body = Some True)
          (transcript srt now1 d (sessionId_of body) message) \<and>
      (\<forall>e\<in>set tr. saves Assistant e \<longrightarrow>
         e = SaveMessage
               ((assistant_turn (sessionId_of body)
                   (reply chatModel (req_streaming body = Some True)
                      (transcript srt now1 d (sessionId_of body) message)))
                \<lparr>msg_id := Some (next_rowid (db_after_user now1 d (sessionId_of body) message))\<rparr>)) \<and>
      (\<forall>a. InvokeResolved a \<in> set tr \<longleftrightarrow>
         (req_streaming body \<noteq> Some True \<and>
          invoke chatModel (transcript srt now1 d (sessionId_of body) message) = Inr a)) \<and>
      (StreamEnded \<in> set tr \<longleftrightarrow>
         (req_streaming body = Some True \<and>
          (\<exists>chunks. stream chatModel (transcript srt now1 d (sessionId_of body) message) =
                      Inr (chunks, None))))"
proof -
  let ?sid = "sessionId_of body"
  let ?d1 = "db_after_user now1 d ?sid message"
  let ?msgs = "transcript srt now1 d ?sid message"
  let ?u = "SaveMessage ((user_turn ?sid message)\<lparr>msg_id := Some (next_rowid d)\<rparr>)"
  let ?st = "req_streaming body = Some True"
  obtain db2 evs where b: "(db2, evs) =
       (if ?st then streaming_branch chatModel now2 (Some ?d1) ?sid ?msgs
        else buffered_branch chatModel now2 (Some ?d1) ?sid ?msgs)"
    by (metis surj_pair)
  note f = branch_reads[OF b]
  have run: "post_api_chat srt chatModel now1 now2 (Some d) (Some body) =
               (db2, ?u # GetConversationHistory ?sid # evs)"
    using post_api_chat_valid[OF assms, of srt chatModel now1 now2 d] b[symmetric]
    by (simp add: Let_def)
  have 1: "chunks_read (GetConversationHistory ?sid # evs) = delivered chatModel ?st ?msgs"
    using f by simp
  have 2: "\<forall>e\<in>set (GetConversationHistory ?sid # evs). saves Assistant e \<longrightarrow>
         e = SaveMessage ((assistant_turn ?sid (reply chatModel ?st ?msgs))\<lparr>msg_id := Some (next_rowid ?d1)\<rparr>)"
    using f by (simp add: saves_simps)
  have 3: "\<forall>a. InvokeResolved a \<in> set (GetConversationHistory ?sid # evs) \<longleftrightarrow>
         (req_streaming body \<noteq> Some True \<and> invoke chatModel ?msgs = Inr a)"
    using f by simp
  have 4: "StreamEnded \<in> set (GetConversationHistory ?sid # evs) \<longleftrightarrow>
         (?st \<and> (\<exists>chunks. stream chatModel ?msgs = Inr (chunks, None)))"
    using f by simp
  show ?thesis
    apply (rule exI[of _ db2])
    apply (rule exI[of _ "GetConversationHistory ?sid # evs"])
    using run 1 2 3 4 by blast
qed

text \<open>
  The completion call of a valid request carries \<open>transcript\<close>, and nothing of the
  completion comes before it.
\<close>

lemma transcript_is_sent:
  assumes "req_message body = Some message" and "message \<noteq> []"
  shows "\<exists>pre post.
      snd (post_api_chat srt chatModel now1 now2 (Some d) (Some body)) =
        pre @ (if req_streaming body = Some True
               then ModelStream (transcript srt now1 d (sessionId_of body) message)
               else ModelInvoke (transcript srt now1 d (sessionId_of body) message)) # post \<and>
      (\<forall>e\<in>set pre. \<not> is_completion e)"
proof -
  let ?sid = "sessionId_of body"
  let ?d1 = "db_after_user now1 d ?sid message"
  let ?msgs = "transcript srt now1 d ?sid message"
  let ?u = "SaveMessage ((user_turn ?sid message)\<lparr>msg_id := Some (next_rowid d)\<rparr>)"
  show ?thesis
  proof (cases "req_streaming body = Some True")
    case True
    obtain post where p: "snd (streaming_branch chatModel now2 (Some ?d1) ?sid ?msgs) =
        sse_headers @ ModelStream ?msgs # post"
      using streaming_branch_calls by blast
    have "snd (post_api_chat srt chatModel now1 now2 (Some d) (Some body)) =
        ([?u, GetConversationHistory ?sid] @ sse_headers) @ ModelStream ?msgs # post"
      using True p by (simp add: post_api_chat_valid[OF assms] Let_def case_prod_beta)
    moreover have "\<forall>e\<in>set ([?u, GetConversationHistory ?sid] @ sse_headers). \<not> is_completion e"
      by (auto simp: is_completion_simps sse_headers_def)
    ultimately show ?thesis unfolding if_P[OF True] by blast
  next
    case False
    obtain post where p: "snd (buffered_branch chatModel now2 (Some ?d1) ?sid ?msgs) =
        ModelInvoke ?msgs # post"
      using buffered_branch_calls by blast
    have "snd (post_api_chat srt chatModel now1 now2 (Some d) (Some body)) =
        [?u, GetConversationHistory ?sid] @ ModelInvoke ?msgs # post"
      using False p by (simp add: post_api_chat_valid[OF assms] Let_def case_prod_beta)
    moreover have "\<forall>e\<in>set [?u, GetConversationHistory ?sid]. \<not> is_completion e"
      by (auto simp: is_completion_simps)
    ultimately show ?thesis unfolding if_not_P[OF False] by blast
  qed
qed

text \<open>
  Whatever sorter meets ORDER BY: the transcript is the history read back without its last
  turn, turn by turn, followed by the incoming text, and it is as long as that history.
\<close>

lemma transcript_structure:
  assumes "order_by_timestamp srt"
  shows "transcript srt now d sessionId message =
           map toLangchain (butlast (history_after_user srt now d sessionId message)) @ [HumanMessage message] \<and>
         length (transcript srt now d sessionId message) =
           length (history_after_user srt now d sessionId message) \<and>
         length (history_after_user srt now d sessionId message) = Suc (length (session_rows d sessionId))"
proof -
  let ?h = "history_after_user srt now d sessionId message"
  have sr: "session_rows (db_after_user now d sessionId message) sessionId =
          session_rows d sessionId @
          [\<lparr>row_id = next_rowid d, row_session_id = sessionId, row_role = User,
            row_content = message, row_timestamp = now\<rparr>]"
    by (simp add: session_rows_def db_after_user_def messages_sql_insert)
  have l: "length ?h = Suc (length (session_rows d sessionId))"
    unfolding history_after_user_def using sorter_length[OF assms] sr by simp
  then show ?thesis by (simp add: transcript_def langchainMessages_def)
qed

text \<open>
  When no row of the session is stamped later than the insert and the sorter keeps the
  scan's order among equal timestamps, the turn left out is the one just saved: the
  transcript is the history before the request followed by the incoming text.
\<close>

lemma transcript_prior_turns:
  assumes "\<forall>r\<in>set (session_rows d sessionId). row_timestamp r \<le> now"
  shows "transcript stable_sorter now d sessionId message =
           map toLangchain (map row_to_Message (stable_sorter (session_rows d sessionId))) @
           [HumanMessage message]"
proof -
  let ?new = "\<lparr>row_id = next_rowid d, row_session_id = sessionId, row_role = User,
            row_content = message, row_timestamp = now\<rparr>"
  have sr: "session_rows (db_after_user now d sessionId message) sessionId =
          session_rows d sessionId @ [?new]"
    by (simp add: session_rows_def db_after_user_def messages_sql_insert)
  have "stable_sorter (session_rows d sessionId @ [?new]) =
          stable_sorter (session_rows d sessionId) @ [?new]"
    unfolding stable_sorter_def using assms by (intro sort_key_snoc) simp
  then show ?thesis
    by (simp add: transcript_def langchainMessages_def history_after_user_def sr)
qed

text \<open>
  When a row of the session is stamped later than the insert, the row just saved is not the
  last of the history, whatever sorter meets ORDER BY: it stays in the transcript, which
  then holds the incoming text twice.
\<close>

lemma saved_row_not_removed:
  assumes srt: "order_by_timestamp srt"
    and later: "r \<in> set (session_rows d sessionId)" "now < row_timestamp r"
  shows "row_to_Message \<lparr>row_id = next_rowid d, row_session_id = sessionId, row_role = User,
            row_content = message, row_timestamp = now\<rparr>
           \<in> set (butlast (history_after_user srt now d sessionId message)) \<and>
         HumanMessage message \<in> set (butlast (transcript srt now d sessionId message))"
proof -
  let ?new = "\<lparr>row_id = next_rowid d, row_session_id = sessionId, row_role = User,
            row_content = message, row_timestamp = now\<rparr>"
  let ?rows = "session_rows (db_after_user now d sessionId message) sessionId"
  let ?rs = "srt ?rows"
  have sr: "?rows = session_rows d sessionId @ [?new]"
    by (simp add: session_rows_def db_after_user_def messages_sql_insert)
  have st: "set ?rs = set ?rows" by (rule mset_eq_setD) (rule sorter_mset[OF srt])
  have r: "r \<in> set ?rs" and n: "?new \<in> set ?rs" using later(1) st by (simp_all add: sr)
  then have ne: "?rs \<noteq> []" by auto
  have "row_timestamp r \<le> row_timestamp (last ?rs)"
    using timestamp_ascending_last[OF sorter_sorted[OF srt] r] .
  then have "now < row_timestamp (last ?rs)" using later(2) by simp
  then have "last ?rs \<noteq> ?new" by auto
  moreover have "set ?rs = insert (last ?rs) (set (butlast ?rs))"
    using ne by (metis append_butlast_last_id list.simps(15) rotate1.simps(2) set_rotate1)
  ultimately have b: "?new \<in> set (butlast ?rs)" using n by auto
  then have h: "row_to_Message ?new \<in> set (butlast (history_after_user srt now d sessionId message))"
    by (simp add: history_after_user_def map_butlast[symmetric])
  then have "toLangchain (row_to_Message ?new)
       \<in> set (map toLangchain (butlast (history_after_user srt now d sessionId message)))"
    by simp
  moreover have "toLangchain (row_to_Message ?new) = HumanMessage message"
    by (simp add: toLangchain_def row_to_Message_def)
  ultimately have "HumanMessage message \<in> set (butlast (transcript srt now d sessionId message))"
    by (simp add: transcript_def langchainMessages_def butlast_append)
  with h show ?thesis by simp
qed

section \<open>The example stores, evaluated\<close>



lemma next_rowid_empty_db: "next_rowid empty_db = 1"
  by (simp add: next_rowid_def empty_db_def)

lemma next_rowid_ping_pong: "next_rowid ping_pong_db = 3"
  by (simp add: next_rowid_def ping_pong_db_def ping_row_def pong_row_def)

lemma next_rowid_after_hi:
  "next_rowid (db_after_user now ping_pong_db ''s1'' ''hi'') = 4"
  by (simp add: next_rowid_def db_after_user_def messages_sql_insert sql_insert_def Let_def
      next_rowid_ping_pong)
    (simp add: ping_pong_db_def ping_row_def pong_row_def)

lemma quoted_chunks:
  "QuoteJSONString (''a'' @ [CHR 0x22]) = [CHR 0x22] @ ''a'' @ [CHR 0x5C, CHR 0x22] @ [CHR 0x22]"
  "QuoteJSONString ([CHR 0x0A] @ ''b'') = [CHR 0x22] @ [CHR 0x5C] @ ''nb'' @ [CHR 0x22]"
  by (simp_all add: QuoteJSONString_def QuoteJSONChar_def)

lemma session_rows_after_hi:
  "session_rows (db_after_user ''2024-01-01 00:00:04'' ping_pong_db ''s1'' ''hi'') ''s1'' =
     [ping_row, pong_row, hi_row]"
  by (simp add: session_rows_def db_after_user_def messages_sql_insert next_rowid_ping_pong hi_row_def)
    (simp add: ping_pong_db_def ping_row_def pong_row_def)

lemma stable_sorter_after_hi:
  "stable_sorter [ping_row, pong_row, hi_row] = [hi_row, ping_row, pong_row]"
  by (simp add: stable_sorter_def ping_row_def pong_row_def hi_row_def)

lemma transcript_after_clock_step_back:
  "transcript stable_sorter ''2024-01-01 00:00:04'' ping_pong_db ''s1'' ''hi'' =
     [HumanMessage ''hi'', HumanMessage ''ping'', HumanMessage ''hi'']"
  by (simp add: transcript_def history_after_user_def session_rows_after_hi stable_sorter_after_hi
      langchainMessages_def)
    (simp add: toLangchain_def row_to_Message_def hi_row_def ping_row_def)

section \<open>The claims\<close>

subsection \<open>C1: the order of persistence and completion\<close>

text \<open>
  C1. In every run of the handler, no event of the completion call is followed by the save
  of a user turn, and no save of an assistant turn is followed by an event of the
  completion call. For a request with a non-empty message on an open store: the save of
  the user turn is the first thing done; the completion call is issued after it, carries
  the transcript, and nothing of the completion comes before it; the chunks read from the
  stream are, in order, exactly the chunks the service delivers, \<open>invoke\<close> is resolved
  in the run exactly with the answer the service gives, and the stream is ended in the run
  exactly when the service's stream ends without failure; an assistant turn is saved
  exactly when the completion call does not fail, and what is saved is the service's
  reply (all chunks put together, or the answer); the user's row is in the store
  afterwards, nothing that was there is gone, and when the completion call fails the store
  is exactly the one with the user turn added.
\<close>

theorem chat_persistence_order:
  "all_before (saves User) is_completion (snd (post_api_chat srt chatModel now1 now2 db req_body)) \<and>
   all_before is_completion (saves Assistant) (snd (post_api_chat srt chatModel now1 now2 db req_body)) \<and>
   (req_body = Some body \<and> req_message body = Some message \<and> message \<noteq> [] \<and> db = Some d \<longrightarrow>
     (\<exists>d' tr.
        post_api_chat srt chatModel now1 now2 db req_body =
          (Some d', SaveMessage ((user_turn (sessionId_of body) message)\<lparr>msg_id := Some (next_rowid d)\<rparr>) # tr) \<and>
        (\<exists>pre post.
           SaveMessage ((user_turn (sessionId_of body) message)\<lparr>msg_id := Some (next_rowid d)\<rparr>) # tr =
             pre @ (if req_streaming body = Some True
                    then ModelStream (transcript srt now1 d (sessionId_of body) message)
                    else ModelInvoke (transcript srt now1 d (sessionId_of body) message)) # post \<and>
           (\<forall>e\<in>set pre. \<not> is_completion e)) \<and>
        chunks_read tr =
          delivered chatModel (req_streaming body = Some True)
            (transcript srt now1 d (sessionId_of body) message) \<and>
        (\<forall>a. InvokeResolved a \<in> set tr \<longleftrightarrow>
           (req_streaming body \<noteq> Some True \<and>
            invoke chatModel (transcript srt now1 d (sessionId_of body) message) = Inr a)) \<and>
        (StreamEnded \<in> set tr \<longleftrightarrow>
           (req_streaming body = Some True \<and>
            (\<exists>chunks. stream chatModel (transcript srt now1 d (sessionId_of body) message) =
                        Inr (chunks, None)))) \<and>
        ((\<exists>e\<in>set tr. saves Assistant e) \<longleftrightarrow>
           \<not> completion_fails chatModel (req_streaming body = Some True)
               (transcript srt now1 d (sessionId_of body) message)) \<and>
        ((\<exists>e\<in>set tr. is_completed e) \<longleftrightarrow>
           \<not> completion_fails chatModel (req_streaming body = Some True)
               (transcript srt now1 d (sessionId_of body) message)) \<and>
        (\<forall>e\<in>set tr. saves Assistant e \<longrightarrow>
           e = SaveMessage
                 ((assistant_turn (sessionId_of body)
                     (reply chatModel (req_streaming body = Some True)
                        (transcript srt now1 d (sessionId_of body) message)))
                  \<lparr>msg_id := Some (next_rowid (db_after_user now1 d (sessionId_of body) message))\<rparr>)) \<and>
        \<lparr>row_id = next_rowid d, row_session_id = sessionId_of body, row_role = User,
          row_content = message, row_timestamp = now1\<rparr> \<in> set (messages d') \<and>
        set (messages d) \<subseteq> set (messages d') \<and>
        (completion_fails chatModel (req_streaming body = Some True)
               (transcript srt now1 d (sessionId_of body) message) \<longrightarrow>
           d' = db_after_user now1 d (sessionId_of body) message)))"
proof -
  let ?run = "post_api_chat srt chatModel now1 now2 db req_body"
  have quiet: "all_before (saves User) is_completion tr \<and> all_before is_completion (saves Assistant) tr"
    if "\<forall>e\<in>set tr. \<not> saves User e \<and> \<not> saves Assistant e" for tr
    using that by (simp add: all_before_no_later all_before_no_earlier)
  have order: "all_before (saves User) is_completion (snd ?run) \<and>
               all_before is_completion (saves Assistant) (snd ?run)"
  proof (cases req_body)
    case None
    then have "snd ?run = internal_error TypeError" by (simp add: post_api_chat_def)
    then show ?thesis
      using quiet[of "internal_error TypeError"] by (simp add: internal_error_def saves_simps)
  next
    case b: (Some b)
    show ?thesis
    proof (cases "req_message b")
      case None
      then have "snd ?run = bad_request" using b by (simp add: post_api_chat_def)
      then show ?thesis using quiet[of bad_request] by (simp add: bad_request_def saves_simps)
    next
      case (Some m)
      show ?thesis
      proof (cases "m = []")
        case True
        then have "snd ?run = bad_request" using Some b by (simp add: post_api_chat_def)
        then show ?thesis using quiet[of bad_request] by (simp add: bad_request_def saves_simps)
      next
        case False
        show ?thesis
        proof (cases db)
          case None
          then have "snd ?run = internal_error DatabaseNotInitialized"
            using Some False b by (simp add: post_api_chat_def saveMessage_def)
          then show ?thesis
            using quiet[of "internal_error DatabaseNotInitialized"]
            by (simp add: internal_error_def saves_simps)
        next
          case d0: (Some d0)
          from valid_request_facts[OF Some False, of srt chatModel now1 now2 d0]
          show ?thesis unfolding d0 b by auto
        qed
      qed
    qed
  qed
  have valid: "\<exists>d' tr.
        post_api_chat srt chatModel now1 now2 db req_body =
          (Some d', SaveMessage ((user_turn (sessionId_of body) message)\<lparr>msg_id := Some (next_rowid d)\<rparr>) # tr) \<and>
        (\<exists>pre post.
           SaveMessage ((user_turn (sessionId_of body) message)\<lparr>msg_id := Some (next_rowid d)\<rparr>) # tr =
             pre @ (if req_streaming body = Some True
                    then ModelStream (transcript srt now1 d (sessionId_of body) message)
                    else ModelInvoke (transcript srt now1 d (sessionId_of body) message)) # post \<and>
           (\<forall>e\<in>set pre. \<not> is_completion e)) \<and>
        chunks_read tr =
          delivered chatModel (req_streaming body = Some True)
            (transcript srt now1 d (sessionId_of body) message) \<and>
        (\<forall>a. InvokeResolved a \<in> set tr \<longleftrightarrow>
           (req_streaming body \<noteq> Some True \<and>
            invoke chatModel (transcript srt now1 d (sessionId_of body) message) = Inr a)) \<and>
        (StreamEnded \<in> set tr \<longleftrightarrow>
           (req_streaming body = Some True \<and>
            (\<exists>chunks. stream chatModel (transcript srt now1 d (sessionId_of body) message) =
                        Inr (chunks, None)))) \<and>
        ((\<exists>e\<in>set tr. saves Assistant e) \<longleftrightarrow>
           \<not> completion_fails chatModel (req_streaming body = Some True)
               (transcript srt now1 d (sessionId_of body) message)) \<and>
        ((\<exists>e\<in>set tr. is_completed e) \<longleftrightarrow>
           \<not> completion_fails chatModel (req_streaming body = Some True)
               (transcript srt now1 d (sessionId_of body) message)) \<and>
        (\<forall>e\<in>set tr. saves Assistant e \<longrightarrow>
           e = SaveMessage
                 ((assistant_turn (sessionId_of body)
                     (reply chatModel (req_streaming body = Some True)
                        (transcript srt now1 d (sessionId_of body) message)))
                  \<lparr>msg_id := Some (next_rowid (db_after_user now1 d (sessionId_of body) message))\<rparr>)) \<and>
        \<lparr>row_id = next_rowid d, row_session_id = sessionId_of body, row_role = User,
          row_content = message, row_timestamp = now1\<rparr> \<in> set (messages d') \<and>
        set (messages d) \<subseteq> set (messages d') \<and>
        (completion_fails chatModel (req_streaming body = Some True)
               (transcript srt now1 d (sessionId_of body) message) \<longrightarrow>
           d' = db_after_user now1 d (sessionId_of body) message)"
    if h: "req_body = Some body" "req_message body = Some message" "message \<noteq> []" "db = Some d"
  proof -
    let ?u = "SaveMessage ((user_turn (sessionId_of body) message)\<lparr>msg_id := Some (next_rowid d)\<rparr>)"
    from valid_request_facts[OF h(2,3), of srt chatModel now1 now2 d]
    obtain d' tr where f:
      "post_api_chat srt chatModel now1 now2 (Some d) (Some body) = (Some d', ?u # tr)"
      "(\<exists>e\<in>set tr. saves Assistant e) \<longleftrightarrow>
           \<not> completion_fails chatModel (req_streaming body = Some True)
               (transcript srt now1 d (sessionId_of body) message)"
      "(\<exists>e\<in>set tr. is_completed e) \<longleftrightarrow>
           \<not> completion_fails chatModel (req_streaming body = Some True)
               (transcript srt now1 d (sessionId_of body) message)"
      "\<lparr>row_id = next_rowid d, row_session_id = sessionId_of body, row_role = User,
          row_content = message, row_timestamp = now1\<rparr> \<in> set (messages d')"
      "set (messages d) \<subseteq> set (messages d')"
      "completion_fails chatModel (req_streaming body = Some True)
               (transcript srt now1 d (sessionId_of body) message) \<longrightarrow>
           d' = db_after_user now1 d (sessionId_of body) message"
      by blast
    from valid_request_reads[OF h(2,3), of srt chatModel now1 now2 d]
    obtain d2 tr2 where g0:
      "post_api_chat srt chatModel now1 now2 (Some d) (Some body) = (d2, ?u # tr2)"
      and g:
      "chunks_read tr2 =
          delivered chatModel (req_streaming body = Some True)
            (transcript srt now1 d (sessionId_of body) message)"
      "\<forall>e\<in>set tr2. saves Assistant e \<longrightarrow>
           e = SaveMessage
                 ((assistant_turn (sessionId_of body)
                     (reply chatModel (req_streaming body = Some True)
                        (transcript srt now1 d (sessionId_of body) message)))
                  \<lparr>msg_id := Some (next_rowid (db_after_user now1 d (sessionId_of body) message))\<rparr>)"
      "\<forall>a. InvokeResolved a \<in> set tr2 \<longleftrightarrow>
           (req_streaming body \<noteq> Some True \<and>
            invoke chatModel (transcript srt now1 d (sessionId_of body) message) = Inr a)"
      "StreamEnded \<in> set tr2 \<longleftrightarrow>
           (req_streaming body = Some True \<and>
            (\<exists>chunks. stream chatModel (transcript srt now1 d (sessionId_of body) message) =
                        Inr (chunks, None)))"
      by blast
    have e: "tr2 = tr" using f(1) g0 by simp
    from transcript_is_sent[OF h(2,3), of srt chatModel now1 now2 d]
    have t: "\<exists>pre post.
           ?u # tr =
             pre @ (if req_streaming body = Some True
                    then ModelStream (transcript srt now1 d (sessionId_of body) message)
                    else ModelInvoke (transcript srt now1 d (sessionId_of body) message)) # post \<and>
           (\<forall>e\<in>set pre. \<not> is_completion e)"
      unfolding f(1) snd_conv .
    show ?thesis
      unfolding h(1) h(4)
      apply (rule exI[of _ d'])
      apply (rule exI[of _ tr])
      using f t g[unfolded e] by (intro conjI)
  qed
  from order valid show ?thesis by blast
qed

theorem chat_persistence_order_witness:
  "(\<exists>d' tr.
      post_api_chat stable_sorter ok_model ''2024-01-01 00:00:06'' ''2024-01-01 00:00:07''
          (Some ping_pong_db) (Some hi_streaming_request) =
        (Some d', SaveMessage ((user_turn ''s1'' ''hi'')\<lparr>msg_id := Some 3\<rparr>) # tr) \<and>
      all_before (saves User) is_completion (SaveMessage ((user_turn ''s1'' ''hi'')\<lparr>msg_id := Some 3\<rparr>) # tr) \<and>
      all_before is_completion (saves Assistant) (SaveMessage ((user_turn ''s1'' ''hi'')\<lparr>msg_id := Some 3\<rparr>) # tr) \<and>
      chunks_read tr = [''o'', ''k''] \<and>
      StreamEnded \<in> set tr \<and>
      SaveMessage ((assistant_turn ''s1'' ''ok'')\<lparr>msg_id := Some 4\<rparr>) \<in> set tr) \<and>
   (\<exists>d' tr.
      post_api_chat stable_sorter down_model ''2024-01-01 00:00:06'' ''2024-01-01 00:00:07''
          (Some ping_pong_db) (Some hi_streaming_request) =
        (Some d', SaveMessage ((user_turn ''s1'' ''hi'')\<lparr>msg_id := Some 3\<rparr>) # tr) \<and>
      \<not> (\<exists>e\<in>set tr. saves Assistant e) \<and>
      \<lparr>row_id = 3, row_session_id = ''s1'', row_role = User, row_content = ''hi'',
        row_timestamp = ''2024-01-01 00:00:06''\<rparr> \<in> set (messages d') \<and>
      d' = db_after_user ''2024-01-01 00:00:06'' ping_pong_db ''s1'' ''hi'')"
proof -
  let ?u = "SaveMessage ((user_turn ''s1'' ''hi'')\<lparr>msg_id := Some 3\<rparr>)"
  have s: "sessionId_of hi_streaming_request = ''s1''"
    and st: "req_streaming hi_streaming_request = Some True"
    by (simp_all add: sessionId_of_def hi_streaming_request_def)
  have h: "Some hi_streaming_request = Some hi_streaming_request \<and>
           req_message hi_streaming_request = Some ''hi'' \<and> ''hi'' \<noteq> [] \<and>
           Some ping_pong_db = Some ping_pong_db"
    by (simp add: hi_streaming_request_def)
  have ok: "\<not> completion_fails ok_model True msgs" "delivered ok_model True msgs = [''o'', ''k'']"
    "reply ok_model True msgs = ''ok''" "stream ok_model msgs = Inr ([''o'', ''k''], None)" for msgs
    by (simp_all add: completion_fails_def delivered_def reply_def ok_model_def)
  have down: "completion_fails down_model True msgs" for msgs
    by (simp add: completion_fails_def down_model_def)
  from h chat_persistence_order[of stable_sorter ok_model "''2024-01-01 00:00:06''"
        "''2024-01-01 00:00:07''" "Some ping_pong_db" "Some hi_streaming_request"
        hi_streaming_request "''hi''" ping_pong_db]
  obtain d' tr where a:
    "post_api_chat stable_sorter ok_model ''2024-01-01 00:00:06'' ''2024-01-01 00:00:07''
          (Some ping_pong_db) (Some hi_streaming_request) = (Some d', ?u # tr)"
    "all_before (saves User) is_completion (?u # tr)"
    "all_before is_completion (saves Assistant) (?u # tr)"
    "chunks_read tr = [''o'', ''k'']"
    "StreamEnded \<in> set tr"
    "\<exists>e\<in>set tr. saves Assistant e"
    "\<forall>e\<in>set tr. saves Assistant e \<longrightarrow>
       e = SaveMessage ((assistant_turn ''s1'' ''ok'')\<lparr>msg_id := Some 4\<rparr>)"
    unfolding s st next_rowid_ping_pong next_rowid_after_hi
    by (simp add: ok) (metis snd_conv)
  have a': "SaveMessage ((assistant_turn ''s1'' ''ok'')\<lparr>msg_id := Some 4\<rparr>) \<in> set tr"
    using a(6) a(7) by blast
  from h chat_persistence_order[of stable_sorter down_model "''2024-01-01 00:00:06''"
        "''2024-01-01 00:00:07''" "Some ping_pong_db" "Some hi_streaming_request"
        hi_streaming_request "''hi''" ping_pong_db]
  obtain d2 tr2 where b:
    "post_api_chat stable_sorter down_model ''2024-01-01 00:00:06'' ''2024-01-01 00:00:07''
          (Some ping_pong_db) (Some hi_streaming_request) = (Some d2, ?u # tr2)"
    "\<not> (\<exists>e\<in>set tr2. saves Assistant e)"
    "\<lparr>row_id = 3, row_session_id = ''s1'', row_role = User, row_content = ''hi'',
        row_timestamp = ''2024-01-01 00:00:06''\<rparr> \<in> set (messages d2)"
    "d2 = db_after_user ''2024-01-01 00:00:06'' ping_pong_db ''s1'' ''hi''"
    unfolding s st next_rowid_ping_pong next_rowid_after_hi
    by (simp add: down) blast
  from a(1-5) a' b show ?thesis by blast
qed

subsection \<open>C2: the order of a session's history\<close>



subsection \<open>C3: the transcript sent to the completion service\<close>

text \<open>
  C3 at a store whose clock was set back: the session holds \<open>ping\<close> and \<open>pong\<close>, both
  stamped 00:00:05, and the request \<open>hi\<close> is inserted with the clock reading 00:00:04.
  The history read back is ordered by timestamp, so the row just saved comes first and
  \<open>slice(0, -1)\<close> removes \<open>pong\<close>: the completion service is sent \<open>hi, ping, hi\<close>,
  while the turns before the request followed by the incoming text are
  \<open>ping, pong, hi\<close>.
\<close>

theorem chat_transcript_after_clock_step_back:
  "snd (post_api_chat stable_sorter ok_model ''2024-01-01 00:00:04'' ''2024-01-01 00:00:04''
          (Some ping_pong_db) (Some hi_request)) =
     [SaveMessage \<lparr>msg_id = Some 3, session_id = ''s1'', role = User, content = ''hi'', timestamp = None\<rparr>,
      GetConversationHistory ''s1'',
      ModelInvoke [HumanMessage ''hi'', HumanMessage ''ping'', HumanMessage ''hi''],
      InvokeResolved ''ok'',
      SaveMessage \<lparr>msg_id = Some 4, session_id = ''s1'', role = Assistant, content = ''ok'', timestamp = None\<rparr>,
      ResJson (MessageBody ''ok'')] \<and>
   map toLangchain (map row_to_Message (stable_sorter (session_rows ping_pong_db ''s1''))) @
     [HumanMessage ''hi''] =
     [HumanMessage ''ping'', AIMessage ''pong'', HumanMessage ''hi'']"
proof
  have m: "req_message hi_request = Some ''hi''" "''hi'' \<noteq> []"
    "sessionId_of hi_request = ''s1''" "req_streaming hi_request \<noteq> Some True"
    by (simp_all add: hi_request_def sessionId_of_def)
  have i: "invoke ok_model msgs = Inr ''ok''" for msgs by (simp add: ok_model_def)
  have n: "next_rowid (db_after_user ''2024-01-01 00:00:04'' ping_pong_db ''s1'' ''hi'') = 4"
    by (simp add: next_rowid_def db_after_user_def messages_sql_insert sql_insert_def Let_def
        next_rowid_ping_pong)
      (simp add: ping_pong_db_def ping_row_def pong_row_def)
  show "snd (post_api_chat stable_sorter ok_model ''2024-01-01 00:00:04'' ''2024-01-01 00:00:04''
          (Some ping_pong_db) (Some hi_request)) =
     [SaveMessage \<lparr>msg_id = Some 3, session_id = ''s1'', role = User, content = ''hi'', timestamp = None\<rparr>,
      GetConversationHistory ''s1'',
      ModelInvoke [HumanMessage ''hi'', HumanMessage ''ping'', HumanMessage ''hi''],
      InvokeResolved ''ok'',
      SaveMessage \<lparr>msg_id = Some 4, session_id = ''s1'', role = Assistant, content = ''ok'', timestamp = None\<rparr>,
      ResJson (MessageBody ''ok'')]"
    using m(4)
    by (simp add: post_api_chat_valid[OF m(1,2)] m(3) Let_def buffered_branch_ok[OF i]
        transcript_after_clock_step_back next_rowid_ping_pong n user_turn_def assistant_turn_def)
  have s: "session_rows ping_pong_db ''s1'' = [ping_row, pong_row]"
    by (simp add: session_rows_def ping_pong_db_def ping_row_def pong_row_def)
  have t: "stable_sorter [ping_row, pong_row] = [ping_row, pong_row]"
    by (simp add: stable_sorter_def ping_row_def pong_row_def)
  show "map toLangchain (map row_to_Message (stable_sorter (session_rows ping_pong_db ''s1''))) @
     [HumanMessage ''hi''] =
     [HumanMessage ''ping'', AIMessage ''pong'', HumanMessage ''hi'']"
    unfolding s t by (simp add: toLangchain_def row_to_Message_def ping_row_def pong_row_def)
qed

subsection \<open>C4: the frames of a drained stream\<close>

text \<open>
  C4. When the stream drains, the run is: the events before the first chunk, none of them a
  write; for each chunk in arrival order the chunk and one write of
  \<^verbatim>\<open>data: {"content":...}\<close> followed by two line feeds; the end of the stream; the save of
  the assistant turn; the write of \<^verbatim>\<open>data: {"done":true}\<close> and two line feeds; the end of
  the response. Read back, the \<open>content\<close> fields of the frames written are the chunks
  in arrival order, and the last frame has none. The saved turn and the row added to the
  store carry the concatenation of the chunks.
\<close>

theorem streamed_fragments_are_persisted_turn:
  assumes "req_message body = Some message" and "message \<noteq> []"
    and "req_streaming body = Some True"
    and "stream chatModel (transcript srt now1 d (sessionId_of body) message) = Inr (chunks, None)"
  shows "\<exists>d' tr saved.
      post_api_chat srt chatModel now1 now2 (Some d) (Some body) =
        (Some d', tr @ chunk_events chunks @
                  [StreamEnded, SaveMessage saved,
                   ResWrite (''data: {'' @ [CHR 0x22] @ ''done'' @ [CHR 0x22] @ '':true}'' @
                             [CHR 0x0A, CHR 0x0A]),
                   ResEnd]) \<and>
      written tr = [] \<and>
      written (snd (post_api_chat srt chatModel now1 now2 (Some d) (Some body))) =
        map (\<lambda>c. ''data: {'' @ [CHR 0x22] @ ''content'' @ [CHR 0x22] @ '':'' @
                  QuoteJSONString c @ ''}'' @ [CHR 0x0A, CHR 0x0A]) chunks @
        [''data: {'' @ [CHR 0x22] @ ''done'' @ [CHR 0x22] @ '':true}'' @ [CHR 0x0A, CHR 0x0A]] \<and>
      map content_of_frame (written (snd (post_api_chat srt chatModel now1 now2 (Some d) (Some body)))) =
        map Some chunks @ [None] \<and>
      session_id saved = sessionId_of body \<and> role saved = Assistant \<and>
      content saved = concat chunks \<and>
      messages d' = messages (db_after_user now1 d (sessionId_of body) message) @
        [\<lparr>row_id = next_rowid (db_after_user now1 d (sessionId_of body) message),
          row_session_id = sessionId_of body, row_role = Assistant,
          row_content = concat chunks, row_timestamp = now2\<rparr>]"
proof -
  let ?sid = "sessionId_of body"
  let ?d1 = "db_after_user now1 d ?sid message"
  let ?msgs = "transcript srt now1 d ?sid message"
  let ?saved = "(assistant_turn ?sid (concat chunks))\<lparr>msg_id := Some (next_rowid ?d1)\<rparr>"
  let ?tr = "[SaveMessage ((user_turn ?sid message)\<lparr>msg_id := Some (next_rowid d)\<rparr>),
              GetConversationHistory ?sid] @ sse_headers @ [ModelStream ?msgs]"
  let ?done = "''data: {'' @ [CHR 0x22] @ ''done'' @ [CHR 0x22] @ '':true}'' @ [CHR 0x0A, CHR 0x0A]"
  let ?tail = "[StreamEnded, SaveMessage ?saved, ResWrite ?done, ResEnd]"
  have run: "post_api_chat srt chatModel now1 now2 (Some d) (Some body) =
      (Some (snd (sql_insert now2 ?d1 ?sid Assistant (concat chunks))),
       ?tr @ chunk_events chunks @ ?tail)"
    using assms by (simp add: post_api_chat_valid streaming_branch_ok Let_def sse_done_frame)
  have w0: "written ?tr = []" by (simp add: written_append written_sse_headers)
  have w: "written (?tr @ chunk_events chunks @ ?tail) =
        map (\<lambda>c. sse_data (JSON_stringify_content c)) chunks @ [sse_data JSON_stringify_done]"
    by (simp add: written_append written_sse_headers written_chunk_events sse_done_frame)
  have s: "session_id ?saved = ?sid \<and> role ?saved = Assistant \<and> content ?saved = concat chunks"
    by (simp add: assistant_turn_def)
  have m: "messages (snd (sql_insert now2 ?d1 ?sid Assistant (concat chunks))) = messages ?d1 @
        [\<lparr>row_id = next_rowid ?d1, row_session_id = ?sid, row_role = Assistant,
          row_content = concat chunks, row_timestamp = now2\<rparr>]"
    by (rule messages_sql_insert)
  have w1: "written (snd (post_api_chat srt chatModel now1 now2 (Some d) (Some body))) =
        map (\<lambda>c. sse_data (JSON_stringify_content c)) chunks @ [sse_data JSON_stringify_done]"
    unfolding run snd_conv by (rule w)
  have w': "written (snd (post_api_chat srt chatModel now1 now2 (Some d) (Some body))) =
        map (\<lambda>c. ''data: {'' @ [CHR 0x22] @ ''content'' @ [CHR 0x22] @ '':'' @
                  QuoteJSONString c @ ''}'' @ [CHR 0x0A, CHR 0x0A]) chunks @
        [''data: {'' @ [CHR 0x22] @ ''done'' @ [CHR 0x22] @ '':true}'' @ [CHR 0x0A, CHR 0x0A]]"
    unfolding w1 sse_content_frame sse_done_frame ..
  have c: "map content_of_frame (written (snd (post_api_chat srt chatModel now1 now2 (Some d) (Some body)))) =
        map Some chunks @ [None]"
    unfolding w1 by (simp add: content_of_frame_content content_of_frame_done comp_def)
  from run w0 w' c s m show ?thesis by blast
qed

theorem streamed_fragments_are_persisted_turn_witness:
  "written (snd (post_api_chat stable_sorter quoting_model ''2024-01-01 00:00:06'' ''2024-01-01 00:00:07''
                  (Some ping_pong_db) (Some hi_streaming_request))) =
     [''data: {'' @ [CHR 0x22] @ ''content'' @ [CHR 0x22] @ '':'' @
        [CHR 0x22] @ ''a'' @ [CHR 0x5C, CHR 0x22] @ [CHR 0x22] @ ''}'' @ [CHR 0x0A, CHR 0x0A],
      ''data: {'' @ [CHR 0x22] @ ''content'' @ [CHR 0x22] @ '':'' @
        [CHR 0x22] @ [CHR 0x5C] @ ''nb'' @ [CHR 0x22] @ ''}'' @ [CHR 0x0A, CHR 0x0A],
      ''data: {'' @ [CHR 0x22] @ ''done'' @ [CHR 0x22] @ '':true}'' @ [CHR 0x0A, CHR 0x0A]] \<and>
   map content_of_frame
     (written (snd (post_api_chat stable_sorter quoting_model ''2024-01-01 00:00:06'' ''2024-01-01 00:00:07''
                  (Some ping_pong_db) (Some hi_streaming_request)))) =
     [Some (''a'' @ [CHR 0x22]), Some ([CHR 0x0A] @ ''b''), None] \<and>
   (\<exists>d' tr saved.
      post_api_chat stable_sorter quoting_model ''2024-01-01 00:00:06'' ''2024-01-01 00:00:07''
          (Some ping_pong_db) (Some hi_streaming_request) =
        (Some d', tr @ chunk_events [''a'' @ [CHR 0x22], [CHR 0x0A] @ ''b''] @
                  [StreamEnded, SaveMessage saved,
                   ResWrite (''data: {'' @ [CHR 0x22] @ ''done'' @ [CHR 0x22] @ '':true}'' @
                             [CHR 0x0A, CHR 0x0A]),
                   ResEnd]) \<and>
      content saved = ''a'' @ [CHR 0x22, CHR 0x0A] @ ''b'' \<and>
      row_content (last (messages d')) = ''a'' @ [CHR 0x22, CHR 0x0A] @ ''b'')"
proof -
  let ?cs = "[''a'' @ [CHR 0x22], [CHR 0x0A] @ ''b'']"
  have h1: "req_message hi_streaming_request = Some ''hi''" and h2: "''hi'' \<noteq> []"
    and h3: "req_streaming hi_streaming_request = Some True"
    by (simp_all add: hi_streaming_request_def)
  have h4: "stream quoting_model (transcript stable_sorter ''2024-01-01 00:00:06'' ping_pong_db
              (sessionId_of hi_streaming_request) ''hi'') = Inr (?cs, None)"
    by (simp add: quoting_model_def)
  from streamed_fragments_are_persisted_turn[OF h1 h2 h3 h4, of "''2024-01-01 00:00:07''"]
  obtain d' tr saved where r:
    "post_api_chat stable_sorter quoting_model ''2024-01-01 00:00:06'' ''2024-01-01 00:00:07''
          (Some ping_pong_db) (Some hi_streaming_request) =
        (Some d', tr @ chunk_events ?cs @
                  [StreamEnded, SaveMessage saved,
                   ResWrite (''data: {'' @ [CHR 0x22] @ ''done'' @ [CHR 0x22] @ '':true}'' @
                             [CHR 0x0A, CHR 0x0A]),
                   ResEnd])"
    "written (snd (post_api_chat stable_sorter quoting_model ''2024-01-01 00:00:06'' ''2024-01-01 00:00:07''
                  (Some ping_pong_db) (Some hi_streaming_request))) =
        map (\<lambda>c. ''data: {'' @ [CHR 0x22] @ ''content'' @ [CHR 0x22] @ '':'' @
                  QuoteJSONString c @ ''}'' @ [CHR 0x0A, CHR 0x0A]) ?cs @
        [''data: {'' @ [CHR 0x22] @ ''done'' @ [CHR 0x22] @ '':true}'' @ [CHR 0x0A, CHR 0x0A]]"
    "map content_of_frame
       (written (snd (post_api_chat stable_sorter quoting_model ''2024-01-01 00:00:06'' ''2024-01-01 00:00:07''
                  (Some ping_pong_db) (Some hi_streaming_request)))) =
       map Some ?cs @ [None]"
    "content saved = concat ?cs"
    "messages d' = messages (db_after_user ''2024-01-01 00:00:06'' ping_pong_db
                      (sessionId_of hi_streaming_request) ''hi'') @
        [\<lparr>row_id = next_rowid (db_after_user ''2024-01-01 00:00:06'' ping_pong_db
                      (sessionId_of hi_streaming_request) ''hi''),
          row_session_id = sessionId_of hi_streaming_request, row_role = Assistant,
          row_content = concat ?cs, row_timestamp = ''2024-01-01 00:00:07''\<rparr>]"
    by blast
  have c: "content saved = ''a'' @ [CHR 0x22, CHR 0x0A] @ ''b''" using r(4) by simp
  have l: "row_content (last (messages d')) = ''a'' @ [CHR 0x22, CHR 0x0A] @ ''b''"
    unfolding r(5) by simp
  have w: "written (snd (post_api_chat stable_sorter quoting_model ''2024-01-01 00:00:06''
                  ''2024-01-01 00:00:07'' (Some ping_pong_db) (Some hi_streaming_request))) =
     [''data: {'' @ [CHR 0x22] @ ''content'' @ [CHR 0x22] @ '':'' @
        [CHR 0x22] @ ''a'' @ [CHR 0x5C, CHR 0x22] @ [CHR 0x22] @ ''}'' @ [CHR 0x0A, CHR 0x0A],
      ''data: {'' @ [CHR 0x22] @ ''content'' @ [CHR 0x22] @ '':'' @
        [CHR 0x22] @ [CHR 0x5C] @ ''nb'' @ [CHR 0x22] @ ''}'' @ [CHR 0x0A, CHR 0x0A],
      ''data: {'' @ [CHR 0x22] @ ''done'' @ [CHR 0x22] @ '':true}'' @ [CHR 0x0A, CHR 0x0A]]"
    unfolding r(2) using quoted_chunks by simp
  have f: "map content_of_frame
     (written (snd (post_api_chat stable_sorter quoting_model ''2024-01-01 00:00:06'' ''2024-01-01 00:00:07''
                  (Some ping_pong_db) (Some hi_streaming_request)))) =
     [Some (''a'' @ [CHR 0x22]), Some ([CHR 0x0A] @ ''b''), None]"
    using r(3) by (simp only: list.map append.simps)
  from r(1) c l have e: "\<exists>d' tr saved.
      post_api_chat stable_sorter quoting_model ''2024-01-01 00:00:06'' ''2024-01-01 00:00:07''
          (Some ping_pong_db) (Some hi_streaming_request) =
        (Some d', tr @ chunk_events ?cs @
                  [StreamEnded, SaveMessage saved,
                   ResWrite (''data: {'' @ [CHR 0x22] @ ''done'' @ [CHR 0x22] @ '':true}'' @
                             [CHR 0x0A, CHR 0x0A]),
                   ResEnd]) \<and>
      content saved = ''a'' @ [CHR 0x22, CHR 0x0A] @ ''b'' \<and>
      row_content (last (messages d')) = ''a'' @ [CHR 0x22, CHR 0x0A] @ ''b''"
    by blast
  from w f e show ?thesis by (intro conjI)
qed

subsection \<open>C5: what saveMessage returns\<close>

text \<open>
  C5, as the code has it. On an open store \<open>saveMessage\<close> appends one row carrying the
  caller's session id, role and content, a rowid not used in the table and the clock's
  reading as its timestamp, and returns the caller's object with \<open>id\<close> set to that rowid.
  The \<open>timestamp\<close> of what it returns is the caller's own field, not the store's.
\<close>

theorem saveMessage_returns_id:
  "\<exists>d'. saveMessage now (Some d) message = Inr (Some d', message\<lparr>msg_id := Some (next_rowid d)\<rparr>) \<and>
        messages d' = messages d @
          [\<lparr>row_id = next_rowid d, row_session_id = session_id message, row_role = role message,
            row_content = content message, row_timestamp = now\<rparr>] \<and>
        next_rowid d \<notin> row_id ` set (messages d) \<and>
        timestamp (message\<lparr>msg_id := Some (next_rowid d)\<rparr>) = timestamp message"
proof -
  have "next_rowid d \<notin> row_id ` set (messages d)"
    using next_rowid_fresh[of _ d] by fastforce
  then show ?thesis
    by (simp add: saveMessage_def sql_insert_def Let_def)
qed

text \<open>
  C5 as stated fails: for the turn \<open>{session_id: "s1", role: "user", content: "hi"}\<close>
  the row is stamped 2024-01-01 00:00:00 and the returned object has no timestamp.
\<close>

theorem saveMessage_timestamp_counterexample:
  "saveMessage ''2024-01-01 00:00:00'' (Some empty_db) hi_turn =
     Inr (Some \<lparr>messages = [\<lparr>row_id = 1, row_session_id = ''s1'', row_role = User,
                              row_content = ''hi'', row_timestamp = ''2024-01-01 00:00:00''\<rparr>],
                sqlite_sequence = 1\<rparr>,
          \<lparr>msg_id = Some 1, session_id = ''s1'', role = User, content = ''hi'', timestamp = None\<rparr>) \<and>
   timestamp \<lparr>msg_id = Some 1, session_id = ''s1'', role = User, content = ''hi'', timestamp = None\<rparr>
     \<noteq> Some ''2024-01-01 00:00:00''"
  by (simp add: saveMessage_def sql_insert_def Let_def next_rowid_empty_db)
    (simp add: empty_db_def hi_turn_def)

subsection \<open>C6: an empty or missing message\<close>

text \<open>
  C6 at a request without a JSON body: \<open>req.body\<close> is undefined, the destructuring of
  \<open>message\<close> throws before the check \<open>!message\<close> is reached, and the \<open>catch\<close> answers
  with status 500 and \<open>{error: "Internal server error"}\<close>, where a missing message is to
  be answered with status 400. The store is the one the handler was given.
\<close>

theorem post_api_chat_without_body:
  "post_api_chat srt chatModel now1 now2 db None =
     (db, [ConsoleError TypeError, ResStatus 500, ResJson (ErrorBody ''Internal server error'')])"
  by (simp add: post_api_chat_def internal_error_def)

subsection \<open>C7: creating a session\<close>

text \<open>
  C7. On an open store \<open>createSession x\<close> appends exactly one row, of session \<open>x\<close>, role
  assistant and empty content; afterwards \<open>x\<close> is among the sessions listed and its
  history has one turn more than \<open>x\<close> had rows, so it is not empty; a second call
  appends a second such row.
\<close>

theorem createSession_placeholder:
  "\<exists>d'. createSession now (Some d) x = Inr (Some d') \<and>
        messages d' = messages d @
          [\<lparr>row_id = next_rowid d, row_session_id = x, row_role = Assistant, row_content = '''',
            row_timestamp = now\<rparr>] \<and>
        (\<exists>ss. getAllSessions (Some d') = Inr ss \<and> x \<in> set ss) \<and>
        (order_by_timestamp srt \<longrightarrow>
           (\<exists>h. getConversationHistory srt (Some d') x = Inr h \<and> h \<noteq> [] \<and>
                length h = Suc (length (session_rows d x)))) \<and>
        (\<exists>d''. createSession now' (Some d') x = Inr (Some d'') \<and>
               length (session_rows d'' x) = Suc (Suc (length (session_rows d x))))"
proof -
  let ?p = "\<lparr>row_id = next_rowid d, row_session_id = x, row_role = Assistant, row_content = '''',
            row_timestamp = now\<rparr>"
  let ?d' = "snd (sql_insert now d x Assistant '''')"
  let ?d'' = "snd (sql_insert now' ?d' x Assistant '''')"
  have c: "createSession now (Some d) x = Inr (Some ?d')" by (simp add: createSession_def)
  have m: "messages ?d' = messages d @ [?p]" by (rule messages_sql_insert)
  have s: "\<exists>ss. getAllSessions (Some ?d') = Inr ss \<and> x \<in> set ss"
    by (simp add: getAllSessions_def m)
  have sr: "session_rows ?d' x = session_rows d x @ [?p]"
    by (simp add: session_rows_def m)
  have h: "\<exists>h. getConversationHistory srt (Some ?d') x = Inr h \<and> h \<noteq> [] \<and>
                length h = Suc (length (session_rows d x))" if a: "order_by_timestamp srt"
  proof -
    have "length (srt (session_rows ?d' x)) = Suc (length (session_rows d x))"
      using sorter_length[OF a, of "session_rows ?d' x"] by (simp add: sr)
    then show ?thesis by (auto simp: getConversationHistory_def)
  qed
  have c2: "createSession now' (Some ?d') x = Inr (Some ?d'')" by (simp add: createSession_def)
  have "length (session_rows ?d'' x) = Suc (Suc (length (session_rows d x)))"
    by (simp add: session_rows_def messages_sql_insert)
  with c m s h c2 show ?thesis by blast
qed

theorem createSession_placeholder_witness:
  "\<exists>d'. createSession ''2024-01-01 00:00:00'' (Some empty_db) ''x'' = Inr (Some d') \<and>
        messages d' =
          [\<lparr>row_id = 1, row_session_id = ''x'', row_role = Assistant, row_content = '''',
            row_timestamp = ''2024-01-01 00:00:00''\<rparr>] \<and>
        (\<exists>ss. getAllSessions (Some d') = Inr ss \<and> ''x'' \<in> set ss) \<and>
        (\<exists>h. getConversationHistory stable_sorter (Some d') ''x'' = Inr h \<and> h \<noteq> [] \<and>
             length h = 1) \<and>
        (\<exists>d''. createSession ''2024-01-01 00:00:01'' (Some d') ''x'' = Inr (Some d'') \<and>
               length (session_rows d'' ''x'') = 2)"
proof -
  have e: "messages empty_db = []" "session_rows empty_db ''x'' = []"
    by (simp_all add: empty_db_def session_rows_def)
  show ?thesis
    using stable_sorter_ok
      createSession_placeholder[of "''2024-01-01 00:00:00''" empty_db "''x''" stable_sorter
        "''2024-01-01 00:00:01''"]
    unfolding next_rowid_empty_db e by (simp add: numeral_2_eq_2)
qed

subsection \<open>C8: deleting a session\<close>

text \<open>
  C8. On an open store \<open>deleteSession\<close> succeeds and leaves no row of the session: its
  history is then empty, it is not among the sessions listed, and the other sessions keep
  their rows. On a store without rows of that session it changes nothing, and deleting a
  second time changes nothing.
\<close>

theorem deleteSession_removes_all:
  "\<exists>d'. deleteSession (Some d) sessionId = Inr (Some d') \<and>
        session_rows d' sessionId = [] \<and>
        (order_by_timestamp srt \<longrightarrow> getConversationHistory srt (Some d') sessionId = Inr []) \<and>
        (\<exists>ss. getAllSessions (Some d') = Inr ss \<and> sessionId \<notin> set ss \<and>
              set ss = row_session_id ` set (messages d) - {sessionId}) \<and>
        (\<forall>other. other \<noteq> sessionId \<longrightarrow> session_rows d' other = session_rows d other) \<and>
        (sessionId \<notin> row_session_id ` set (messages d) \<longrightarrow> d' = d) \<and>
        deleteSession (Some d') sessionId = Inr (Some d')"
proof -
  let ?d' = "d\<lparr>messages := filter (\<lambda>r. row_session_id r \<noteq> sessionId) (messages d)\<rparr>"
  have del: "deleteSession (Some d) sessionId = Inr (Some ?d')" by (simp add: deleteSession_def)
  have sr: "session_rows ?d' sessionId = []" by (simp add: session_rows_def)
  have h: "getConversationHistory srt (Some ?d') sessionId = Inr []" if "order_by_timestamp srt"
    using sorter_Nil[OF that] by (simp add: getConversationHistory_def sr)
  have ls: "\<exists>ss. getAllSessions (Some ?d') = Inr ss \<and> sessionId \<notin> set ss \<and>
              set ss = row_session_id ` set (messages d) - {sessionId}"
    by (auto simp: getAllSessions_def)
  have oth: "session_rows ?d' other = session_rows d other" if "other \<noteq> sessionId" for other
    using that by (auto simp: session_rows_def intro: filter_cong)
  have unk: "?d' = d" if "sessionId \<notin> row_session_id ` set (messages d)"
  proof -
    have "filter (\<lambda>r. row_session_id r \<noteq> sessionId) (messages d) = messages d"
      using that by (auto simp: filter_id_conv)
    then show ?thesis by simp
  qed
  have idem: "deleteSession (Some ?d') sessionId = Inr (Some ?d')"
    by (simp add: deleteSession_def)
  from del sr h ls oth unk idem show ?thesis by blast
qed

theorem deleteSession_removes_all_witness:
  "(\<exists>d'. deleteSession (Some three_sessions_db) ''b'' = Inr (Some d') \<and>
         session_rows d' ''b'' = [] \<and>
         getConversationHistory stable_sorter (Some d') ''b'' = Inr [] \<and>
         (\<exists>ss. getAllSessions (Some d') = Inr ss \<and> ''b'' \<notin> set ss) \<and>
         session_rows d' ''a'' = session_rows three_sessions_db ''a'' \<and>
         deleteSession (Some d') ''b'' = Inr (Some d')) \<and>
   deleteSession (Some three_sessions_db) ''unknown'' = Inr (Some three_sessions_db)"
proof -
  have u: "''unknown'' \<notin> row_session_id ` set (messages three_sessions_db)"
    by (simp add: three_sessions_db_def)
  from deleteSession_removes_all[of three_sessions_db "''b''" stable_sorter]
  obtain d' where d:
    "deleteSession (Some three_sessions_db) ''b'' = Inr (Some d')"
    "session_rows d' ''b'' = []"
    "order_by_timestamp stable_sorter \<longrightarrow>
       getConversationHistory stable_sorter (Some d') ''b'' = Inr []"
    "\<exists>ss. getAllSessions (Some d') = Inr ss \<and> ''b'' \<notin> set ss \<and>
          set ss = row_session_id ` set (messages three_sessions_db) - {''b''}"
    "\<forall>other. other \<noteq> ''b'' \<longrightarrow> session_rows d' other = session_rows three_sessions_db other"
    "deleteSession (Some d') ''b'' = Inr (Some d')"
    by blast
  have h: "getConversationHistory stable_sorter (Some d') ''b'' = Inr []"
    using d(3) stable_sorter_ok by simp
  have l: "\<exists>ss. getAllSessions (Some d') = Inr ss \<and> ''b'' \<notin> set ss"
    using d(4) by blast
  have o: "session_rows d' ''a'' = session_rows three_sessions_db ''a''"
    using d(5) by simp
  have 1: "\<exists>d'. deleteSession (Some three_sessions_db) ''b'' = Inr (Some d') \<and>
         session_rows d' ''b'' = [] \<and>
         getConversationHistory stable_sorter (Some d') ''b'' = Inr [] \<and>
         (\<exists>ss. getAllSessions (Some d') = Inr ss \<and> ''b'' \<notin> set ss) \<and>
         session_rows d' ''a'' = session_rows three_sessions_db ''a'' \<and>
         deleteSession (Some d') ''b'' = Inr (Some d')"
    using d(1) d(2) h l o d(6) by (intro exI[of _ d'] conjI)
  from deleteSession_removes_all[of three_sessions_db "''unknown''" stable_sorter]
  obtain d2 where d2: "deleteSession (Some three_sessions_db) ''unknown'' = Inr (Some d2)"
    "''unknown'' \<notin> row_session_id ` set (messages three_sessions_db) \<longrightarrow> d2 = three_sessions_db"
    by blast
  have 2: "deleteSession (Some three_sessions_db) ''unknown'' = Inr (Some three_sessions_db)"
    using d2 u by simp
  from 1 2 show ?thesis by (rule conjI)
qed

subsection \<open>C9: listing the sessions\<close>

text \<open>
  C9. On an open store \<open>getAllSessions\<close> returns a list whose members are exactly the
  session ids of the rows, none twice, in descending order; it is the only list with these
  members in descending order, so it is fixed by the set of session ids in the store.
\<close>

theorem getAllSessions_each_once_descending:
  "\<exists>ss. getAllSessions (Some d) = Inr ss \<and>
        set ss = row_session_id ` set (messages d) \<and> distinct ss \<and>
        sorted_wrt (\<lambda>a b. b < a) ss \<and>
        (\<forall>ys. set ys = row_session_id ` set (messages d) \<and> sorted_wrt (\<lambda>a b. b < a) ys \<longrightarrow> ys = ss)"
proof -
  let ?ss = "rev (sort (remdups (map row_session_id (messages d))))"
  have s: "set ?ss = row_session_id ` set (messages d)" by simp
  have dst: "distinct ?ss" by simp
  have "sorted_wrt (<) (sort (remdups (map row_session_id (messages d))))"
    by (simp add: strict_sorted_iff)
  then have desc: "sorted_wrt (\<lambda>a b. b < a) ?ss"
    by (simp add: sorted_wrt_rev)
  have uniq: "ys = ?ss" if h: "set ys = row_session_id ` set (messages d)" "sorted_wrt (\<lambda>a b. b < a) ys" for ys
  proof -
    have "sorted_wrt (<) (rev ys)" using h(2) by (simp add: sorted_wrt_rev)
    moreover have "sorted_wrt (<) (rev ?ss)" using desc by (simp add: sorted_wrt_rev del: rev_rev_ident)
    moreover have "set (rev ys) = set (rev ?ss)" using h(1) by simp
    ultimately have "rev ys = rev ?ss" by (metis strict_sorted_equal)
    then show ?thesis by (metis rev_rev_ident)
  qed
  have "getAllSessions (Some d) = Inr ?ss" by (simp add: getAllSessions_def)
  with s dst desc uniq show ?thesis by blast
qed

theorem getAllSessions_each_once_descending_witness:
  "getAllSessions (Some three_sessions_db) = Inr [''default'', ''b'', ''a''] \<and>
   set [''default'', ''b'', ''a''] = row_session_id ` set (messages three_sessions_db) \<and>
   distinct [''default'', ''b'', ''a''] \<and>
   sorted_wrt (\<lambda>a b. b < a) [''default'', ''b'', ''a'']"
proof -
  have e: "getAllSessions (Some three_sessions_db) = Inr [''default'', ''b'', ''a'']"
    by (simp add: getAllSessions_def three_sessions_db_def)
  from getAllSessions_each_once_descending[of three_sessions_db]
  obtain ss where "getAllSessions (Some three_sessions_db) = Inr ss"
    "set ss = row_session_id ` set (messages three_sessions_db)"
    "distinct ss" "sorted_wrt (\<lambda>a b. b < a) ss"
    by blast
  with e show ?thesis by simp
qed

subsection \<open>C10: the buffered reply\<close>

text \<open>
  C10. When the request is not a streaming one and \<open>invoke\<close> resolves with an answer,
  the run ends with the save of the assistant turn and the one JSON response
  \<open>{message: answer}\<close>; the saved turn is of the request's session, and the row the
  request adds to the store after the user's carries that same answer as its content.
\<close>

theorem buffered_reply_is_persisted_turn:
  assumes "req_message body = Some message" and "message \<noteq> []"
    and "req_streaming body \<noteq> Some True"
    and "invoke chatModel (transcript srt now1 d (sessionId_of body) message) = Inr answer"
  shows "\<exists>d' tr saved.
      post_api_chat srt chatModel now1 now2 (Some d) (Some body) =
        (Some d', tr @ [SaveMessage saved, ResJson (MessageBody answer)]) \<and>
      (\<forall>b. ResJson b \<notin> set tr) \<and>
      session_id saved = sessionId_of body \<and> role saved = Assistant \<and> content saved = answer \<and>
      msg_id saved = Some (next_rowid (db_after_user now1 d (sessionId_of body) message)) \<and>
      messages d' = messages (db_after_user now1 d (sessionId_of body) message) @
        [\<lparr>row_id = next_rowid (db_after_user now1 d (sessionId_of body) message),
          row_session_id = sessionId_of body, row_role = Assistant, row_content = answer,
          row_timestamp = now2\<rparr>]"
proof -
  let ?sid = "sessionId_of body"
  let ?d1 = "db_after_user now1 d ?sid message"
  let ?msgs = "transcript srt now1 d ?sid message"
  let ?saved = "(assistant_turn ?sid answer)\<lparr>msg_id := Some (next_rowid ?d1)\<rparr>"
  let ?tr = "[SaveMessage ((user_turn ?sid message)\<lparr>msg_id := Some (next_rowid d)\<rparr>),
              GetConversationHistory ?sid, ModelInvoke ?msgs, InvokeResolved answer]"
  have run: "post_api_chat srt chatModel now1 now2 (Some d) (Some body) =
      (Some (snd (sql_insert now2 ?d1 ?sid Assistant answer)),
       ?tr @ [SaveMessage ?saved, ResJson (MessageBody answer)])"
    using assms by (simp add: post_api_chat_valid buffered_branch_ok Let_def)
  have "\<forall>b. ResJson b \<notin> set ?tr" by simp
  moreover have "session_id ?saved = ?sid \<and> role ?saved = Assistant \<and> content ?saved = answer \<and>
      msg_id ?saved = Some (next_rowid ?d1)"
    by (simp add: assistant_turn_def)
  moreover have "messages (snd (sql_insert now2 ?d1 ?sid Assistant answer)) = messages ?d1 @
        [\<lparr>row_id = next_rowid ?d1, row_session_id = ?sid, row_role = Assistant,
          row_content = answer, row_timestamp = now2\<rparr>]"
    by (rule messages_sql_insert)
  ultimately show ?thesis using run by blast
qed

theorem buffered_reply_is_persisted_turn_witness:
  "\<exists>d' tr saved.
      post_api_chat stable_sorter ok_model ''2024-01-01 00:00:06'' ''2024-01-01 00:00:07''
          (Some ping_pong_db) (Some hi_request) =
        (Some d', tr @ [SaveMessage saved, ResJson (MessageBody ''ok'')]) \<and>
      session_id saved = ''s1'' \<and> role saved = Assistant \<and> content saved = ''ok'' \<and>
      row_content (last (messages d')) = ''ok'' \<and> row_session_id (last (messages d')) = ''s1''"
proof -
  have h1: "req_message hi_request = Some ''hi''" and h2: "''hi'' \<noteq> []"
    and h3: "req_streaming hi_request \<noteq> Some True"
    by (simp_all add: hi_request_def)
  have h4: "invoke ok_model (transcript stable_sorter ''2024-01-01 00:00:06'' ping_pong_db
              (sessionId_of hi_request) ''hi'') = Inr ''ok''"
    by (simp add: ok_model_def)
  have s: "sessionId_of hi_request = ''s1''" by (simp add: sessionId_of_def hi_request_def)
  from buffered_reply_is_persisted_turn[OF h1 h2 h3 h4, of "''2024-01-01 00:00:07''"]
  obtain d' tr saved where r:
    "post_api_chat stable_sorter ok_model ''2024-01-01 00:00:06'' ''2024-01-01 00:00:07''
          (Some ping_pong_db) (Some hi_request) =
        (Some d', tr @ [SaveMessage saved, ResJson (MessageBody ''ok'')])"
    "session_id saved = sessionId_of hi_request" "role saved = Assistant" "content saved = ''ok''"
    "messages d' = messages (db_after_user ''2024-01-01 00:00:06'' ping_pong_db
                      (sessionId_of hi_request) ''hi'') @
        [\<lparr>row_id = next_rowid (db_after_user ''2024-01-01 00:00:06'' ping_pong_db
                      (sessionId_of hi_request) ''hi''),
          row_session_id = sessionId_of hi_request, row_role = Assistant, row_content = ''ok'',
          row_timestamp = ''2024-01-01 00:00:07''\<rparr>]"
    by blast
  have "row_content (last (messages d')) = ''ok''" "row_session_id (last (messages d')) = ''s1''"
    unfolding r(5) by (simp_all add: s)
  with r(1-4) s show ?thesis by auto
qed

end
